theory Spec2Isabelle
  imports Complex_Main "HOL-Library.Finite_Map" "HOL-Library.Char_ord" "HOL-Library.List_Lexorder"
begin

section \<open>Values exchanged with the exchange\<close>

text \<open>
  The broker of \<^verbatim>\<open>ccxtbt/ccxtbroker.py\<close> handles the exchange's answers as plain Python
  values decoded from JSON: \<^verbatim>\<open>None\<close>, numbers, strings, lists and dictionaries with
  string keys. Python compares numbers by value (\<^verbatim>\<open>1 == 1.0 == True\<close>), so there is one
  constructor for all of them and a boolean is the number 1 or 0. A dictionary is a finite
  map, so that equality of \<open>json\<close> values is Python's \<^verbatim>\<open>==\<close>.
\<close>

datatype json = JNull | JNum real | JStr string | JList "json list" | JDict "(string, json) fmap"

datatype error = KeyError | TypeError | ValueError | IndexError | StoreError string

text \<open>\<^verbatim>\<open>d[k]\<close> with a string key: only a dictionary can be indexed that way.\<close>

definition py_getitem :: "json \<Rightarrow> string \<Rightarrow> error + json" where
  "py_getitem d k =
     (case d of
        JDict m \<Rightarrow> (case fmlookup m k of None \<Rightarrow> Inl KeyError | Some v \<Rightarrow> Inr v)
      | _ \<Rightarrow> Inl TypeError)"

text \<open>
  \<^verbatim>\<open>for x in v\<close>: a list gives its elements, a string its characters, a dictionary its
  keys (Python gives them in insertion order, which a finite map does not keep; the keys are
  listed sorted), anything else is not iterable.
\<close>

definition py_iter :: "json \<Rightarrow> error + json list" where
  "py_iter v =
     (case v of
        JList xs \<Rightarrow> Inr xs
      | JStr cs \<Rightarrow> Inr (map (\<lambda>c. JStr [c]) cs)
      | JDict m \<Rightarrow> Inr (map JStr (sorted_list_of_fset (fmdom m)))
      | _ \<Rightarrow> Inl TypeError)"

definition py_hashable :: "json \<Rightarrow> bool" where
  "py_hashable v = (case v of JList _ \<Rightarrow> False | JDict _ \<Rightarrow> False | _ \<Rightarrow> True)"

definition py_abs :: "json \<Rightarrow> error + json" where
  "py_abs v = (case v of JNum x \<Rightarrow> Inr (JNum \<bar>x\<bar>) | _ \<Rightarrow> Inl TypeError)"

text \<open>\<^verbatim>\<open>xs.remove(x)\<close>: removes the first occurrence, \<^verbatim>\<open>ValueError\<close> when there is none.\<close>

definition list_remove :: "'a \<Rightarrow> 'a list \<Rightarrow> error + 'a list" where
  "list_remove x xs = (if x \<in> set xs then Inr (remove1 x xs) else Inl ValueError)"

section \<open>The collaborators\<close>

text \<open>
  Every call the broker makes on the store is recorded, in order, with its arguments.
\<close>

datatype call =
    FetchOrder json string json
  | CreateOrder string json string json json json
  | CancelOrder json string json
  | GetBalance
  | GetBinancePositions

text \<open>
  The data feed of backtrader, as far as the broker reads it: \<^verbatim>\<open>data.p.dataname\<close>,
  \<^verbatim>\<open>data._dataname\<close>, and \<open>created_ms\<close>, the integer that
  \<^verbatim>\<open>int(data.datetime.datetime(0).timestamp() * 1000)\<close> evaluates to (a floating-point
  product, taken as given).
\<close>

record feed =
  p_dataname :: string
  dataname_attr :: string
  created_ms :: int

section \<open>Order records\<close>

datatype status =
  Created | Submitted | Accepted | Partial | Completed | Canceled | Expired | Margin | Rejected

datatype ordtype = Buy | Sell

text \<open>
  \<^verbatim>\<open>CCXTOrder\<close>. The base class \<^verbatim>\<open>OrderBase\<close> is backtrader's: of it the model keeps the
  status, set to \<open>Created\<close> by the constructor and changed by \<^verbatim>\<open>completed()\<close> and
  \<^verbatim>\<open>cancel()\<close>, and in \<open>executed\<close> the executions (datetime, amount, price) that
  \<^verbatim>\<open>execute\<close> has recorded.
\<close>

record CCXTOrder =
  owner :: string
  data :: feed
  ccxt_order :: json
  executed_fills :: "json list"
  ordtype :: ordtype
  size_o :: real
  price :: json
  status :: status
  executed :: "(json \<times> json \<times> json) list"

text \<open>
  The collaborators are parameters. \<^verbatim>\<open>CCXTStore\<close> (\<^verbatim>\<open>ccxtstore.py\<close>) is not among the
  sources: each of its methods answers from the calls made so far and its arguments, with a
  value or an exception; \<^verbatim>\<open>get_balance\<close> answers with the new \<^verbatim>\<open>_cash\<close> and
  \<^verbatim>\<open>_value\<close>, which no other method of the store changes. \<open>float_str\<close> is Python's
  \<^verbatim>\<open>float\<close> on a string (\<open>None\<close> where it raises \<^verbatim>\<open>ValueError\<close>).
  \<open>order_execute\<close> is backtrader's \<^verbatim>\<open>OrderBase.execute\<close>: from the order and the datetime,
  amount and price passed, it returns or raises, and gives the executions the order has
  recorded afterwards. \<open>position_update\<close> is backtrader's \<^verbatim>\<open>Position.update\<close>: from
  what the position holds and the size and price passed, it returns or raises, and gives
  what the position holds afterwards.
\<close>

record env =
  store_fetch_order :: "call list \<Rightarrow> json \<Rightarrow> string \<Rightarrow> json \<Rightarrow> error + json"
  store_create_order ::
    "call list \<Rightarrow> string \<Rightarrow> json \<Rightarrow> string \<Rightarrow> json \<Rightarrow> json \<Rightarrow> json \<Rightarrow> error + json"
  store_cancel_order :: "call list \<Rightarrow> json \<Rightarrow> string \<Rightarrow> json \<Rightarrow> error + json"
  store_get_balance :: "call list \<Rightarrow> error + json \<times> json"
  store_get_binance_positions :: "call list \<Rightarrow> error + json list"
  float_str :: "string \<Rightarrow> real option"
  order_execute ::
    "CCXTOrder \<Rightarrow> json \<Rightarrow> json \<Rightarrow> json \<Rightarrow> (error + unit) \<times> (json \<times> json \<times> json) list"
  position_update ::
    "(real \<times> json) list \<Rightarrow> real \<Rightarrow> json \<Rightarrow> (error + unit) \<times> (real \<times> json) list"

definition py_float :: "env \<Rightarrow> json \<Rightarrow> error + real" where
  "py_float e v =
     (case v of
        JNum x \<Rightarrow> Inr x
      | JStr cs \<Rightarrow> (case float_str e cs of None \<Rightarrow> Inl ValueError | Some x \<Rightarrow> Inr x)
      | _ \<Rightarrow> Inl TypeError)"

text \<open>
  \<^verbatim>\<open>CCXTOrder.__init__\<close> sets the size to \<^verbatim>\<open>float(ccxt_order['amount'])\<close> and then calls
  the constructor of \<^verbatim>\<open>OrderBase\<close>, which negates the size of an order that is not a buy.
\<close>

definition new_CCXTOrder :: "env \<Rightarrow> string \<Rightarrow> feed \<Rightarrow> json \<Rightarrow> error + CCXTOrder" where
  "new_CCXTOrder e ow d co =
     (case py_getitem co ''side'' of
        Inl x \<Rightarrow> Inl x
      | Inr sd \<Rightarrow>
     (case py_getitem co ''amount'' of
        Inl x \<Rightarrow> Inl x
      | Inr a \<Rightarrow>
     (case py_float e a of
        Inl x \<Rightarrow> Inl x
      | Inr sz \<Rightarrow>
          Inr \<lparr>owner = ow, data = d, ccxt_order = co, executed_fills = [],
               ordtype = (if sd = JStr ''buy'' then Buy else Sell),
               size_o = (if sd = JStr ''buy'' then sz else - sz),
               price = JNull, status = Created, executed = []\<rparr>)))"

text \<open>\<^verbatim>\<open>o_order.execute(...)\<close>: an exception leaves the order as the call left it.\<close>

definition execute ::
  "env \<Rightarrow> CCXTOrder \<Rightarrow> json \<Rightarrow> json \<Rightarrow> json \<Rightarrow> (error + unit) \<times> CCXTOrder" where
  "execute e ord dt amt pr =
     (case order_execute e ord dt amt pr of (res, ex) \<Rightarrow> (res, ord\<lparr>executed := ex\<rparr>))"

section \<open>The broker\<close>

record mappings =
  closed_key :: string
  closed_value :: json
  canceled_key :: string
  canceled_value :: json

text \<open>
  \<^verbatim>\<open>CCXTBroker\<close>. Orders are objects shared between the open-order list, the notification
  queue and the caller: \<open>heap\<close> maps a reference to the order it denotes, and the lists
  hold references. \<open>positions\<close> keeps, for each instrument, what its \<^verbatim>\<open>Position\<close> holds,
  as \<^verbatim>\<open>Position.update\<close> leaves it. \<open>store_cash\<close> and \<open>store_value\<close> are
  the store's \<^verbatim>\<open>_cash\<close> and \<^verbatim>\<open>_value\<close>, \<open>calls\<close> the calls made on the store. What the
  broker prints when \<^verbatim>\<open>debug\<close> is set is left out: printing changes nothing, and the
  one field it reads by key (in \<^verbatim>\<open>cancel\<close>) is read again by the test that follows.
\<close>

record CCXTBroker =
  order_types :: "json \<Rightarrow> json option"
  mappings :: mappings
  heap :: "nat \<Rightarrow> CCXTOrder"
  next_ref :: nat
  open_orders :: "nat list"
  notifs :: "nat list"
  positions :: "string \<Rightarrow> (real \<times> json) list"
  broker_cash :: json
  broker_value :: json
  store_cash :: json
  store_value :: json
  calls :: "call list"

definition get_balance :: "env \<Rightarrow> CCXTBroker \<Rightarrow> (error + json \<times> json) \<times> CCXTBroker" where
  "get_balance e s =
     (let s1 = s\<lparr>calls := calls s @ [GetBalance]\<rparr> in
      case store_get_balance e (calls s) of
        Inl x \<Rightarrow> (Inl x, s1)
      | Inr (c, v) \<Rightarrow>
          (Inr (c, v),
           s1\<lparr>store_cash := c, store_value := v, broker_cash := c, broker_value := v\<rparr>))"

definition getcash :: "CCXTBroker \<Rightarrow> json \<times> CCXTBroker" where
  "getcash s = (store_cash s, s\<lparr>broker_cash := store_cash s\<rparr>)"

definition getvalue :: "CCXTBroker \<Rightarrow> json \<times> CCXTBroker" where
  "getvalue s = (store_value s, s\<lparr>broker_value := store_value s\<rparr>)"

definition get_notification :: "CCXTBroker \<Rightarrow> nat option \<times> CCXTBroker" where
  "get_notification s =
     (case notifs s of [] \<Rightarrow> (None, s) | r # rs \<Rightarrow> (Some r, s\<lparr>notifs := rs\<rparr>))"

definition notify :: "nat \<Rightarrow> CCXTBroker \<Rightarrow> CCXTBroker" where
  "notify r s = s\<lparr>notifs := notifs s @ [r]\<rparr>"

definition set_status :: "nat \<Rightarrow> status \<Rightarrow> CCXTBroker \<Rightarrow> CCXTBroker" where
  "set_status r st s = s\<lparr>heap := (heap s)(r := (heap s r)\<lparr>status := st\<rparr>)\<rparr>"

subsection \<open>The reconciliation pass: \<^verbatim>\<open>next\<close>\<close>

text \<open>
  The inner loop over \<^verbatim>\<open>ccxt_order['trades']\<close>. The test is \<^verbatim>\<open>fill not in
  o_order.executed_fills\<close>, on the fill itself; what is appended is \<^verbatim>\<open>fill['id']\<close>. An
  exception leaves the order as it is at that point.
\<close>

fun apply_fills :: "env \<Rightarrow> json list \<Rightarrow> CCXTOrder \<Rightarrow> (error + unit) \<times> CCXTOrder" where
  "apply_fills e [] ord = (Inr (), ord)"
| "apply_fills e (fill # fs) ord =
     (if fill \<notin> set (executed_fills ord) then
        (case py_getitem fill ''datetime'' of
           Inl x \<Rightarrow> (Inl x, ord)
         | Inr dt \<Rightarrow>
        (case py_getitem fill ''amount'' of
           Inl x \<Rightarrow> (Inl x, ord)
         | Inr amt \<Rightarrow>
        (case py_getitem fill ''price'' of
           Inl x \<Rightarrow> (Inl x, ord)
         | Inr pr \<Rightarrow>
        (case execute e ord dt amt pr of
           (Inl x, ord1) \<Rightarrow> (Inl x, ord1)
         | (Inr _, ord1) \<Rightarrow>
        (case py_getitem fill ''id'' of
           Inl x \<Rightarrow> (Inl x, ord1)
         | Inr fid \<Rightarrow>
             apply_fills e fs (ord1\<lparr>executed_fills := executed_fills ord1 @ [fid]\<rparr>))))))
      else apply_fills e fs ord)"

definition check_fills ::
  "env \<Rightarrow> json \<Rightarrow> nat \<Rightarrow> CCXTBroker \<Rightarrow> (error + unit) \<times> CCXTBroker" where
  "check_fills e co r s =
     (case py_getitem co ''trades'' of
        Inl x \<Rightarrow> (Inl x, s)
      | Inr t \<Rightarrow>
          if t \<noteq> JNull then
            (case py_iter t of
               Inl x \<Rightarrow> (Inl x, s)
             | Inr fs \<Rightarrow>
                 (case apply_fills e fs (heap s r) of
                    (res, ord) \<Rightarrow> (res, s\<lparr>heap := (heap s)(r := ord)\<rparr>)))
          else (Inr (), s))"

text \<open>The body of \<^verbatim>\<open>if ccxt_order[closed key] == closed value\<close>.\<close>

definition closed_path :: "env \<Rightarrow> nat \<Rightarrow> CCXTBroker \<Rightarrow> (error + unit) \<times> CCXTBroker" where
  "closed_path e r s =
     (let ord = heap s r;
          nm = dataname_attr (data ord)
      in case position_update e (positions s nm) (size_o ord) (price ord) of
           (Inl x, pos) \<Rightarrow> (Inl x, s\<lparr>positions := (positions s)(nm := pos)\<rparr>)
         | (Inr _, pos) \<Rightarrow>
     (let s1 = s\<lparr>positions := (positions s)(nm := pos)\<rparr>;
          s2 = set_status r Completed s1;
          s3 = notify r s2
      in case list_remove r (open_orders s3) of
           Inl x \<Rightarrow> (Inl x, s3)
         | Inr os \<Rightarrow>
             (case get_balance e (s3\<lparr>open_orders := os\<rparr>) of
                (Inl x, s4) \<Rightarrow> (Inl x, s4)
              | (Inr _, s4) \<Rightarrow> (Inr (), s4))))"

text \<open>The body of \<^verbatim>\<open>if ccxt_order[canceled key] == canceled value\<close>.\<close>

definition canceled_path :: "nat \<Rightarrow> CCXTBroker \<Rightarrow> (error + unit) \<times> CCXTBroker" where
  "canceled_path r s =
     (case list_remove r (open_orders s) of
        Inl x \<Rightarrow> (Inl x, s)
      | Inr os \<Rightarrow> (Inr (), notify r (set_status r Canceled (s\<lparr>open_orders := os\<rparr>))))"

text \<open>One iteration of \<^verbatim>\<open>for o_order in list(self.open_orders)\<close>.\<close>

definition next_order :: "env \<Rightarrow> nat \<Rightarrow> CCXTBroker \<Rightarrow> (error + unit) \<times> CCXTBroker" where
  "next_order e r s =
     (case py_getitem (ccxt_order (heap s r)) ''id'' of
        Inl x \<Rightarrow> (Inl x, s)
      | Inr oID \<Rightarrow>
     (let dn = p_dataname (data (heap s r));
          params = JDict (fmap_of_list [(''type'', JStr ''future'')]);
          s1 = s\<lparr>calls := calls s @ [FetchOrder oID dn params]\<rparr>
      in case store_fetch_order e (calls s) oID dn params of
        Inl x \<Rightarrow> (Inl x, s1)
      | Inr co \<Rightarrow>
     (case check_fills e co r s1 of
        (Inl x, s2) \<Rightarrow> (Inl x, s2)
      | (Inr _, s2) \<Rightarrow>
     (case py_getitem co (closed_key (mappings s2)) of
        Inl x \<Rightarrow> (Inl x, s2)
      | Inr v \<Rightarrow>
     (case (if v = closed_value (mappings s2) then closed_path e r s2 else (Inr (), s2)) of
        (Inl x, s3) \<Rightarrow> (Inl x, s3)
      | (Inr _, s3) \<Rightarrow>
     (case py_getitem co (canceled_key (mappings s3)) of
        Inl x \<Rightarrow> (Inl x, s3)
      | Inr w \<Rightarrow>
          if w = canceled_value (mappings s3) then canceled_path r s3 else (Inr (), s3)))))))"

fun next_loop :: "env \<Rightarrow> nat list \<Rightarrow> CCXTBroker \<Rightarrow> (error + unit) \<times> CCXTBroker" where
  "next_loop e [] s = (Inr (), s)"
| "next_loop e (r # rs) s =
     (case next_order e r s of
        (Inl x, s1) \<Rightarrow> (Inl x, s1)
      | (Inr _, s1) \<Rightarrow> next_loop e rs s1)"

definition broker_next :: "env \<Rightarrow> CCXTBroker \<Rightarrow> (error + unit) \<times> CCXTBroker" where
  "broker_next e s = next_loop e (open_orders s) s"

subsection \<open>Submission: \<^verbatim>\<open>_submit\<close>, \<^verbatim>\<open>buy\<close>, \<^verbatim>\<open>sell\<close>\<close>

text \<open>
  \<^verbatim>\<open>_submit\<close> answers with the reference of the new order, or with \<^verbatim>\<open>None\<close>. A price
  left out by the caller is \<^verbatim>\<open>None\<close>, which is not equal to 0.
\<close>

definition submit ::
  "env \<Rightarrow> string \<Rightarrow> feed \<Rightarrow> json \<Rightarrow> string \<Rightarrow> json \<Rightarrow> json \<Rightarrow> (string, json) fmap \<Rightarrow> CCXTBroker
     \<Rightarrow> (error + nat option) \<times> CCXTBroker" where
  "submit e ow d exectype side amount prc params s =
     (if amount = JNum 0 \<or> prc = JNum 0 then (Inr None, s)
      else if \<not> py_hashable exectype then (Inl TypeError, s)
      else
       (let order_type =
              (case order_types s exectype of
                 None \<Rightarrow> JStr ''market''
               | Some v \<Rightarrow> if v = JNull then JStr ''market'' else v);
            created = created_ms d;
            params1 = (case fmlookup params ''params'' of Some p \<Rightarrow> p | None \<Rightarrow> JDict params)
        in case params1 of
          JDict m \<Rightarrow>
            (let params2 = JDict (fmupd ''created'' (JNum (of_int created)) m);
                 s1 = s\<lparr>calls := calls s @
                        [CreateOrder (p_dataname d) order_type side amount prc params2]\<rparr>
             in case store_create_order e (calls s) (p_dataname d) order_type side amount prc
                       params2 of
               Inl x \<Rightarrow> (Inl x, s1)
             | Inr ret_ord \<Rightarrow>
            (case py_getitem ret_ord ''id'' of
               Inl x \<Rightarrow> (Inl x, s1)
             | Inr oid \<Rightarrow>
            (let s2 = s1\<lparr>calls := calls s1 @ [FetchOrder oid (p_dataname d) params2]\<rparr>
             in case store_fetch_order e (calls s1) oid (p_dataname d) params2 of
               Inl x \<Rightarrow> (Inl x, s2)
             | Inr co \<Rightarrow>
            (case new_CCXTOrder e ow d co of
               Inl x \<Rightarrow> (Inl x, s2)
             | Inr ord \<Rightarrow>
            (case py_getitem ret_ord ''price'' of
               Inl x \<Rightarrow> (Inl x, s2)
             | Inr p \<Rightarrow>
                (let r = next_ref s2;
                     s3 = s2\<lparr>heap := (heap s2)(r := ord\<lparr>price := p\<rparr>), next_ref := Suc r,
                             open_orders := open_orders s2 @ [r]\<rparr>
                 in (Inr (Some r), notify r s3)))))))
        | _ \<Rightarrow> (Inl TypeError, s)))"

text \<open>
  \<^verbatim>\<open>buy\<close> and \<^verbatim>\<open>sell\<close> read, of their named parameters, the size, the price and the
  execution type; \<^verbatim>\<open>parent\<close> and \<^verbatim>\<open>transmit\<close> are taken out of the other keyword
  arguments.
\<close>

definition buy ::
  "env \<Rightarrow> string \<Rightarrow> feed \<Rightarrow> json \<Rightarrow> json \<Rightarrow> json \<Rightarrow> (string, json) fmap \<Rightarrow> CCXTBroker
     \<Rightarrow> (error + nat option) \<times> CCXTBroker" where
  "buy e ow d sz prc exectype kwargs s =
     submit e ow d exectype ''buy'' sz prc (fmdrop ''transmit'' (fmdrop ''parent'' kwargs)) s"

definition sell ::
  "env \<Rightarrow> string \<Rightarrow> feed \<Rightarrow> json \<Rightarrow> json \<Rightarrow> json \<Rightarrow> (string, json) fmap \<Rightarrow> CCXTBroker
     \<Rightarrow> (error + nat option) \<times> CCXTBroker" where
  "sell e ow d sz prc exectype kwargs s =
     submit e ow d exectype ''sell'' sz prc (fmdrop ''transmit'' (fmdrop ''parent'' kwargs)) s"

subsection \<open>Closing a position: \<^verbatim>\<open>close\<close>\<close>

text \<open>
  \<^verbatim>\<open>close\<close> passes its keyword arguments on with \<^verbatim>\<open>**kwargs\<close>, next to \<^verbatim>\<open>owner\<close>,
  \<^verbatim>\<open>data\<close> and \<^verbatim>\<open>size\<close>: Python binds those that name a parameter of \<^verbatim>\<open>buy\<close> or
  \<^verbatim>\<open>sell\<close> to it, leaves the others in the callee's \<^verbatim>\<open>kwargs\<close>, and raises
  \<^verbatim>\<open>TypeError\<close> when one of the three is given twice. Taking element 0 of an empty
  list of amounts raises \<^verbatim>\<open>IndexError\<close>, which \<^verbatim>\<open>close\<close> catches to return \<^verbatim>\<open>None\<close>;
  a comparison of an amount that is not a number with 0 raises \<^verbatim>\<open>TypeError\<close>.
\<close>

definition kw_clash :: "(string, json) fmap \<Rightarrow> bool" where
  "kw_clash kwargs =
     (''owner'' |\<in>| fmdom kwargs \<or> ''data'' |\<in>| fmdom kwargs \<or> ''size'' |\<in>| fmdom kwargs)"

definition kw_get :: "(string, json) fmap \<Rightarrow> string \<Rightarrow> json" where
  "kw_get kwargs k = (case fmlookup kwargs k of None \<Rightarrow> JNull | Some v \<Rightarrow> v)"

definition kw_rest :: "(string, json) fmap \<Rightarrow> (string, json) fmap" where
  "kw_rest kwargs =
     fmdrop_set (set [''price'', ''plimit'', ''exectype'', ''valid'', ''tradeid'', ''oco'',
                      ''trailamount'', ''trailpercent'']) kwargs"

text \<open>\<^verbatim>\<open>[{p['symbol']: p['positionAmt']} for p in open_positions]\<close>\<close>

fun poses :: "json list \<Rightarrow> error + (json \<times> json) list" where
  "poses [] = Inr []"
| "poses (p # ps) =
     (case py_getitem p ''symbol'' of
        Inl x \<Rightarrow> Inl x
      | Inr sy \<Rightarrow>
     (case py_getitem p ''positionAmt'' of
        Inl x \<Rightarrow> Inl x
      | Inr amt \<Rightarrow>
          if \<not> py_hashable sy then Inl TypeError
          else (case poses ps of Inl x \<Rightarrow> Inl x | Inr rest \<Rightarrow> Inr ((sy, amt) # rest))))"

text \<open>\<^verbatim>\<open>[p['positionAmt'] for p in open_positions if p['symbol'] == symbol]\<close>\<close>

fun position_amounts :: "json list \<Rightarrow> string \<Rightarrow> error + json list" where
  "position_amounts [] symbol = Inr []"
| "position_amounts (p # ps) symbol =
     (case py_getitem p ''symbol'' of
        Inl x \<Rightarrow> Inl x
      | Inr sy \<Rightarrow>
          if sy = JStr symbol then
            (case py_getitem p ''positionAmt'' of
               Inl x \<Rightarrow> Inl x
             | Inr amt \<Rightarrow>
                 (case position_amounts ps symbol of
                    Inl x \<Rightarrow> Inl x
                  | Inr rest \<Rightarrow> Inr (amt # rest)))
          else position_amounts ps symbol)"

definition close ::
  "env \<Rightarrow> string \<Rightarrow> feed \<Rightarrow> json \<Rightarrow> bool \<Rightarrow> (string, json) fmap \<Rightarrow> CCXTBroker
     \<Rightarrow> (error + nat option) \<times> CCXTBroker" where
  "close e ow d sz all kwargs s =
     (let s1 = s\<lparr>calls := calls s @ [GetBinancePositions]\<rparr> in
      case store_get_binance_positions e (calls s) of
        Inl x \<Rightarrow> (Inl x, s1)
      | Inr open_positions \<Rightarrow>
          if all then
            (case poses open_positions of Inl x \<Rightarrow> (Inl x, s1) | Inr _ \<Rightarrow> (Inr None, s1))
          else
            (let symbol = filter (\<lambda>c. c \<noteq> CHR ''/'') (p_dataname d) in
             case position_amounts open_positions symbol of
               Inl x \<Rightarrow> (Inl x, s1)
             | Inr [] \<Rightarrow> (Inr None, s1)
             | Inr (possize # _) \<Rightarrow>
            (case py_abs (if sz \<noteq> JNull then sz else possize) of
               Inl x \<Rightarrow> (Inl x, s1)
             | Inr asz \<Rightarrow>
            (case possize of
               JNum p \<Rightarrow>
                 if p > 0 then
                   (if kw_clash kwargs then (Inl TypeError, s1)
                    else sell e ow d asz (kw_get kwargs ''price'') (kw_get kwargs ''exectype'')
                           (kw_rest kwargs) s1)
                 else if p < 0 then
                   (if kw_clash kwargs then (Inl TypeError, s1)
                    else buy e ow d asz (kw_get kwargs ''price'') (kw_get kwargs ''exectype'')
                           (kw_rest kwargs) s1)
                 else (Inr None, s1)
             | _ \<Rightarrow> (Inl TypeError, s1)))))"

subsection \<open>Cancellation: \<^verbatim>\<open>cancel\<close>\<close>

text \<open>
  The removal from the open orders is inside \<^verbatim>\<open>try ... except ValueError\<close>: when it
  fails, the two statements after it are skipped and the order is returned.
\<close>

definition cancel ::
  "env \<Rightarrow> nat \<Rightarrow> json \<Rightarrow> CCXTBroker \<Rightarrow> (error + nat) \<times> CCXTBroker" where
  "cancel e r params s =
     (let params1 = (if params = JNull then JDict fmempty else params) in
      case py_getitem (ccxt_order (heap s r)) ''id'' of
        Inl x \<Rightarrow> (Inl x, s)
      | Inr oID \<Rightarrow>
     (let dn = p_dataname (data (heap s r));
          s1 = s\<lparr>calls := calls s @ [FetchOrder oID dn params1]\<rparr>
      in case store_fetch_order e (calls s) oID dn params1 of
        Inl x \<Rightarrow> (Inl x, s1)
      | Inr co \<Rightarrow>
     (case py_getitem co (closed_key (mappings s1)) of
        Inl x \<Rightarrow> (Inl x, s1)
      | Inr v \<Rightarrow>
          if v = closed_value (mappings s1) then (Inr r, s1)
          else
     (let s2 = s1\<lparr>calls := calls s1 @ [CancelOrder oID dn params1]\<rparr>
      in case store_cancel_order e (calls s1) oID dn params1 of
        Inl x \<Rightarrow> (Inl x, s2)
      | Inr co2 \<Rightarrow>
     (case py_getitem co2 (canceled_key (mappings s2)) of
        Inl x \<Rightarrow> (Inl x, s2)
      | Inr w \<Rightarrow>
          if w = canceled_value (mappings s2) then
            (case list_remove r (open_orders s2) of
               Inl x \<Rightarrow> if x = ValueError then (Inr r, s2) else (Inl x, s2)
             | Inr os \<Rightarrow> (Inr r, notify r (set_status r Canceled (s2\<lparr>open_orders := os\<rparr>))))
          else (Inr r, s2))))))"

section \<open>Example runs\<close>

text \<open>
  Concrete brokers and stores. The class attribute \<^verbatim>\<open>mappings\<close> of the broker is
  \<open>default_mappings\<close>; \<open>result_mappings\<close> is the table of the class docstring, where a
  canceled order is recognised by another field.
\<close>

definition default_mappings :: mappings where
  "default_mappings =
     \<lparr>closed_key = ''status'', closed_value = JStr ''closed'',
      canceled_key = ''status'', canceled_value = JStr ''canceled''\<rparr>"

definition result_mappings :: mappings where
  "result_mappings =
     \<lparr>closed_key = ''status'', closed_value = JStr ''closed'',
      canceled_key = ''result'', canceled_value = JNum 1\<rparr>"

definition feed_btc :: feed where
  "feed_btc = \<lparr>p_dataname = ''BTC/USD'', dataname_attr = ''BTC/USD'', created_ms = 0\<rparr>"

definition feed_eth :: feed where
  "feed_eth = \<lparr>p_dataname = ''ETH/USD'', dataname_attr = ''ETH/USD'', created_ms = 0\<rparr>"

definition order_ex :: "string \<Rightarrow> CCXTOrder" where
  "order_ex oid =
     \<lparr>owner = ''strategy'', data = feed_btc,
      ccxt_order = JDict (fmap_of_list
        [(''id'', JStr oid), (''side'', JStr ''buy''), (''amount'', JNum 1)]),
      executed_fills = [], ordtype = Buy, size_o = 1, price = JNum 100, status = Created,
      executed = []\<rparr>"

text \<open>
  Two orders, \<open>a\<close> at reference 0 and \<open>b\<close> at any other reference; \<open>os\<close> are the open
  ones. No order type is configured, so every submission is a market order.
\<close>

definition broker_ex :: "mappings \<Rightarrow> nat list \<Rightarrow> CCXTBroker" where
  "broker_ex m os =
     \<lparr>order_types = (\<lambda>_. None), mappings = m,
      heap = (\<lambda>r. if r = 0 then order_ex ''a'' else order_ex ''b''), next_ref = 2,
      open_orders = os, notifs = [], positions = (\<lambda>_. []),
      broker_cash = JNum 0, broker_value = JNum 0, store_cash = JNum 500,
      store_value = JNum 600, calls = []\<rparr>"

text \<open>
  An \<^verbatim>\<open>execute\<close> that returns at once on a size that is zero or \<^verbatim>\<open>None\<close>, and
  otherwise records the execution and raises \<^verbatim>\<open>TypeError\<close> unless amount and price are
  numbers; a position that records every update and never raises.
\<close>

definition execute_ex ::
  "CCXTOrder \<Rightarrow> json \<Rightarrow> json \<Rightarrow> json \<Rightarrow> (error + unit) \<times> (json \<times> json \<times> json) list" where
  "execute_ex ord dt amt pr =
     (if amt = JNum 0 \<or> amt = JNull then (Inr (), executed ord)
      else case (amt, pr) of
             (JNum a, JNum p) \<Rightarrow> (Inr (), executed ord @ [(dt, amt, pr)])
           | _ \<Rightarrow> (Inl TypeError, executed ord @ [(dt, amt, pr)]))"

definition update_ex ::
  "(real \<times> json) list \<Rightarrow> real \<Rightarrow> json \<Rightarrow> (error + unit) \<times> (real \<times> json) list" where
  "update_ex pos sz pr = (Inr (), pos @ [(sz, pr)])"

text \<open>
  A store that answers \<^verbatim>\<open>fetch_order\<close> and \<^verbatim>\<open>cancel_order\<close> from the order identifier
  alone, and \<^verbatim>\<open>get_binance_positions\<close> with a fixed list.
\<close>

definition store_ex ::
  "(json \<Rightarrow> error + json) \<Rightarrow> (json \<Rightarrow> error + json) \<Rightarrow> json list \<Rightarrow> env" where
  "store_ex fetch cancl ps =
     \<lparr>store_fetch_order = (\<lambda>h oid dn params. fetch oid),
      store_create_order = (\<lambda>h sym ot side amount prc params.
        Inr (JDict (fmap_of_list [(''id'', JStr ''c''), (''price'', prc)]))),
      store_cancel_order = (\<lambda>h oid dn params. cancl oid),
      store_get_balance = (\<lambda>h. Inr (JNum 900, JNum 1000)),
      store_get_binance_positions = (\<lambda>h. Inr ps),
      float_str = (\<lambda>cs. None),
      order_execute = execute_ex, position_update = update_ex\<rparr>"

definition fill_f1 :: json where
  "fill_f1 = JDict (fmap_of_list
     [(''id'', JStr ''f1''), (''datetime'', JStr ''2021-01-01T00:00:00Z''),
      (''amount'', JNum 1), (''price'', JNum 100)])"

definition snapshot :: "json \<Rightarrow> string \<Rightarrow> json \<Rightarrow> json" where
  "snapshot oid st trades =
     JDict (fmap_of_list [(''id'', oid), (''status'', JStr st), (''trades'', trades)])"

text \<open>A snapshot that reads closed under \<open>result_mappings\<close> and canceled as well.\<close>

definition snapshot_both :: "json \<Rightarrow> json" where
  "snapshot_both oid =
     JDict (fmap_of_list
       [(''id'', oid), (''status'', JStr ''closed''), (''result'', JNum 1), (''trades'', JNull)])"

text \<open>The exchange keeps reporting order \<open>a\<close> open, with the one fill \<open>f1\<close>.\<close>

definition store_same_fill :: env where
  "store_same_fill =
     store_ex (\<lambda>oid. Inr (snapshot oid ''open'' (JList [fill_f1])))
       (\<lambda>oid. Inr (snapshot oid ''canceled'' JNull)) []"

definition store_both :: env where
  "store_both = store_ex (\<lambda>oid. Inr (snapshot_both oid)) (\<lambda>oid. Inr (snapshot_both oid)) []"

text \<open>Fetching order \<open>a\<close> fails; order \<open>b\<close> is reported closed.\<close>

definition store_a_fails :: env where
  "store_a_fails =
     store_ex (\<lambda>oid. if oid = JStr ''a'' then Inl (StoreError ''timeout'')
                      else Inr (snapshot oid ''closed'' JNull))
       (\<lambda>oid. Inr (snapshot oid ''canceled'' JNull)) []"

text \<open>Order \<open>a\<close> is reported closed, order \<open>b\<close> still open.\<close>

definition store_a_closed :: env where
  "store_a_closed =
     store_ex (\<lambda>oid. if oid = JStr ''a'' then Inr (snapshot oid ''closed'' JNull)
                      else Inr (snapshot oid ''open'' JNull))
       (\<lambda>oid. Inr (snapshot oid ''canceled'' JNull)) []"


text \<open>Every order is reported open; a cancel request is answered with a canceled order.\<close>

definition store_cancels :: env where
  "store_cancels =
     store_ex (\<lambda>oid. Inr (snapshot oid ''open'' JNull))
       (\<lambda>oid. Inr (snapshot oid ''canceled'' JNull)) []"

text \<open>Every order is reported open, also in the answer to a cancel request.\<close>

definition store_keeps_open :: env where
  "store_keeps_open =
     store_ex (\<lambda>oid. Inr (snapshot oid ''open'' JNull))
       (\<lambda>oid. Inr (snapshot oid ''open'' JNull)) []"

text \<open>The account is short 2 of \<open>ETHUSD\<close> and long 3 of \<open>BTCUSD\<close>.\<close>

definition store_positions :: env where
  "store_positions =
     store_ex (\<lambda>oid. Inr (JDict (fmap_of_list
         [(''id'', oid), (''side'', JStr ''buy''), (''amount'', JNum 2)])))
       (\<lambda>oid. Inr (snapshot oid ''canceled'' JNull))
       [JDict (fmap_of_list [(''symbol'', JStr ''ETHUSD''), (''positionAmt'', JNum (- 2))]),
        JDict (fmap_of_list [(''symbol'', JStr ''BTCUSD''), (''positionAmt'', JNum 3)])]"

definition feed_xrp :: feed where
  "feed_xrp = \<lparr>p_dataname = ''XRP/USD'', dataname_attr = ''XRP/USD'', created_ms = 0\<rparr>"

section \<open>Properties\<close>

subsection \<open>What one iteration and one pass change\<close>

lemma apply_fills_frame:
  "apply_fills e fs ord = (res, ord') \<Longrightarrow>
     status ord' = status ord \<and> data ord' = data ord \<and> ccxt_order ord' = ccxt_order ord
     \<and> size_o ord' = size_o ord \<and> price ord' = price ord"
proof (induction fs arbitrary: ord)
  case Nil
  then show ?case by simp
next
  case (Cons fill fs)
  show ?case
  proof (cases "fill \<in> set (executed_fills ord)")
    case True
    with Cons show ?thesis by simp
  next
    case False
    with Cons.prems show ?thesis
      by (auto simp: execute_def split: sum.splits prod.splits dest!: Cons.IH)
  qed
qed

lemma check_fills_frame:
  assumes "check_fills e co r s = (res, s')"
  shows "open_orders s' = open_orders s" and "notifs s' = notifs s"
    and "r' \<noteq> r \<Longrightarrow> heap s' r' = heap s r'"
    and "status (heap s' r') = status (heap s r')"
    and "mappings s' = mappings s" and "calls s' = calls s"
    and "store_cash s' = store_cash s" and "store_value s' = store_value s"
    and "positions s' = positions s" and "next_ref s' = next_ref s"
  using assms apply_fills_frame [of e _ "heap s r"]
  by (auto simp: check_fills_def split: sum.splits if_splits prod.splits)

lemma check_fills_misc:
  assumes "check_fills e co r s = (res, s')"
  shows "ccxt_order (heap s' r') = ccxt_order (heap s r')"
    and "data (heap s' r') = data (heap s r')"
    and "size_o (heap s' r') = size_o (heap s r')"
    and "price (heap s' r') = price (heap s r')"
  using assms apply_fills_frame [of e _ "heap s r"]
  by (auto simp: check_fills_def split: sum.splits if_splits prod.splits)

text \<open>The closed branch when \<^verbatim>\<open>Position.update\<close> returns, and when it raises.\<close>

lemma closed_path_effect:
  assumes "closed_path e r s = (res, s')"
    and "fst (position_update e (positions s (dataname_attr (data (heap s r))))
           (size_o (heap s r)) (price (heap s r))) = Inr ()"
  shows "notifs s' = notifs s @ [r]" and "status (heap s' r) = Completed"
    and "r \<in> set (open_orders s) \<Longrightarrow> open_orders s' = remove1 r (open_orders s)"
    and "r \<notin> set (open_orders s) \<Longrightarrow> open_orders s' = open_orders s"
  using assms
  by (auto simp: closed_path_def Let_def list_remove_def notify_def set_status_def
      get_balance_def split: sum.splits if_splits prod.splits)

lemma closed_path_raises:
  assumes "closed_path e r s = (res, s')"
    and "fst (position_update e (positions s (dataname_attr (data (heap s r))))
           (size_o (heap s r)) (price (heap s r))) = Inl x"
  shows "res = Inl x" and "notifs s' = notifs s" and "heap s' = heap s"
    and "open_orders s' = open_orders s" and "store_cash s' = store_cash s"
    and "store_value s' = store_value s"
  using assms
  by (auto simp: closed_path_def Let_def split: sum.splits prod.splits)

lemma closed_path_frame:
  assumes "closed_path e r s = (res, s')" and "r' \<noteq> r"
  shows "heap s' r' = heap s r'"
    and "count_list (notifs s') r' = count_list (notifs s) r'"
    and "r' \<in> set (open_orders s') \<longleftrightarrow> r' \<in> set (open_orders s)"
  using assms
  by (auto simp: closed_path_def Let_def list_remove_def notify_def set_status_def
      get_balance_def split: sum.splits if_splits prod.splits)

lemma closed_path_distinct:
  assumes "closed_path e r s = (res, s')" and "distinct (open_orders s)"
  shows "distinct (open_orders s')"
  using assms
  by (auto simp: closed_path_def Let_def list_remove_def notify_def set_status_def
      get_balance_def split: sum.splits if_splits prod.splits)

lemma closed_path_misc:
  assumes "closed_path e r s = (res, s')"
  shows "ccxt_order (heap s' r') = ccxt_order (heap s r')"
    and "data (heap s' r') = data (heap s r')"
    and "mappings s' = mappings s" and "next_ref s' = next_ref s"
  using assms
  by (auto simp: closed_path_def Let_def list_remove_def notify_def set_status_def
      get_balance_def split: sum.splits if_splits prod.splits)

lemma closed_path_out:
  assumes "closed_path e r s = (res, s')" and "distinct (open_orders s)"
    and "fst (position_update e (positions s (dataname_attr (data (heap s r))))
           (size_o (heap s r)) (price (heap s r))) = Inr ()"
  shows "r \<notin> set (open_orders s')"
  using closed_path_effect(3,4) [OF assms(1,3)] assms(2)
  by (cases "r \<in> set (open_orders s)") auto

lemma canceled_path_effect:
  assumes "canceled_path r s = (res, s')"
  shows "r \<in> set (open_orders s) \<Longrightarrow>
           notifs s' = notifs s @ [r] \<and> status (heap s' r) = Canceled
           \<and> open_orders s' = remove1 r (open_orders s)"
    and "r \<notin> set (open_orders s) \<Longrightarrow> s' = s"
    and "r' \<noteq> r \<Longrightarrow> heap s' r' = heap s r'"
  using assms
  by (auto simp: canceled_path_def list_remove_def notify_def set_status_def
      split: sum.splits if_splits)


lemma canceled_path_frame:
  assumes "canceled_path r s = (res, s')" and "r' \<noteq> r"
  shows "heap s' r' = heap s r'"
    and "count_list (notifs s') r' = count_list (notifs s) r'"
    and "r' \<in> set (open_orders s') \<longleftrightarrow> r' \<in> set (open_orders s)"
  using assms
  by (auto simp: canceled_path_def list_remove_def notify_def set_status_def
      split: sum.splits if_splits)

lemma canceled_path_distinct:
  assumes "canceled_path r s = (res, s')" and "distinct (open_orders s)"
  shows "distinct (open_orders s')"
  using assms
  by (auto simp: canceled_path_def list_remove_def notify_def set_status_def
      split: sum.splits if_splits)

lemma canceled_path_misc:
  assumes "canceled_path r s = (res, s')"
  shows "mappings s' = mappings s" and "store_cash s' = store_cash s"
    and "store_value s' = store_value s"
    and "notifs s' = notifs s \<or> notifs s' = notifs s @ [r]"
    and "ccxt_order (heap s' r') = ccxt_order (heap s r')"
    and "data (heap s' r') = data (heap s r')"
    and "next_ref s' = next_ref s"
  using assms
  by (auto simp: canceled_path_def list_remove_def notify_def set_status_def
      split: sum.splits if_splits)

lemma next_order_chain:
  assumes "next_order e r s = (res, s')"
  shows "\<exists>cs co res2 s2 res3 s3 res4.
           (s2 = s\<lparr>calls := cs\<rparr> \<or> check_fills e co r (s\<lparr>calls := cs\<rparr>) = (res2, s2))
         \<and> (s3 = s2 \<or> closed_path e r s2 = (res3, s3))
         \<and> (s' = s3 \<or> canceled_path r s3 = (res4, s'))"
proof (cases "py_getitem (ccxt_order (heap s r)) ''id''")
  case (Inl x)
  with assms have "s' = s\<lparr>calls := calls s\<rparr>" by (simp add: next_order_def)
  then show ?thesis by blast
next
  case (Inr oID)
  define dn where "dn = p_dataname (data (heap s r))"
  define params where "params = JDict (fmap_of_list [(''type'', JStr ''future'')])"
  define s1 where "s1 = s\<lparr>calls := calls s @ [FetchOrder oID dn params]\<rparr>"
  show ?thesis
  proof (cases "store_fetch_order e (calls s) oID dn params")
    case (Inl x)
    with assms Inr have "s' = s1"
      by (auto simp: next_order_def dn_def params_def s1_def)
    then show ?thesis unfolding s1_def by blast
  next
    case co: (Inr co)
    obtain res2 s2 where cf: "check_fills e co r s1 = (res2, s2)" by (cases "check_fills e co r s1")
    obtain res3 s3 where cp: "closed_path e r s2 = (res3, s3)" by (cases "closed_path e r s2")
    obtain res4 where cn3: "canceled_path r s3 = (res4, snd (canceled_path r s3))"
      by (cases "canceled_path r s3") simp
    obtain res5 where cn2: "canceled_path r s2 = (res5, snd (canceled_path r s2))"
      by (cases "canceled_path r s2") simp
    have "s' = s2 \<or> s' = s3 \<or> s' = snd (canceled_path r s3) \<or> s' = snd (canceled_path r s2)"
      using assms Inr co cf cp
      by (auto simp: next_order_def dn_def params_def s1_def
          split: sum.splits if_splits prod.splits)
    then consider "s' = s2" | "s' = s3" | "s' = snd (canceled_path r s3)"
      | "s' = snd (canceled_path r s2)" by blast
    then show ?thesis
    proof cases
      case 1
      with cf show ?thesis unfolding s1_def by blast
    next
      case 2
      with cf cp show ?thesis unfolding s1_def by blast
    next
      case 3
      with cf cp cn3 show ?thesis unfolding s1_def by metis
    next
      case 4
      with cf cn2 show ?thesis unfolding s1_def by metis
    qed
  qed
qed

lemma next_order_frame:
  assumes "next_order e r s = (res, s')" and "r' \<noteq> r"
  shows "heap s' r' = heap s r'"
    and "count_list (notifs s') r' = count_list (notifs s) r'"
    and "r' \<in> set (open_orders s') \<longleftrightarrow> r' \<in> set (open_orders s)"
proof -
  from next_order_chain [OF assms(1)] obtain cs co res2 s2 res3 s3 res4 where
    a: "s2 = s\<lparr>calls := cs\<rparr> \<or> check_fills e co r (s\<lparr>calls := cs\<rparr>) = (res2, s2)" and
    b: "s3 = s2 \<or> closed_path e r s2 = (res3, s3)" and
    c: "s' = s3 \<or> canceled_path r s3 = (res4, s')" by blast
  have a': "heap s2 r' = heap s r' \<and> notifs s2 = notifs s \<and> open_orders s2 = open_orders s"
  proof (cases "s2 = s\<lparr>calls := cs\<rparr>")
    case True
    then show ?thesis by simp
  next
    case False
    with a have cf: "check_fills e co r (s\<lparr>calls := cs\<rparr>) = (res2, s2)" by simp
    from check_fills_frame(1,2) [OF cf] check_fills_frame(3) [OF cf assms(2)]
    show ?thesis by simp
  qed
  have b': "heap s3 r' = heap s2 r' \<and> count_list (notifs s3) r' = count_list (notifs s2) r'
      \<and> (r' \<in> set (open_orders s3) \<longleftrightarrow> r' \<in> set (open_orders s2))"
    using b closed_path_frame [of e r s2 res3 s3 r'] assms(2) by auto
  have c': "heap s' r' = heap s3 r' \<and> count_list (notifs s') r' = count_list (notifs s3) r'
      \<and> (r' \<in> set (open_orders s') \<longleftrightarrow> r' \<in> set (open_orders s3))"
    using c canceled_path_frame [of r s3 res4 s' r'] assms(2) by auto
  show "heap s' r' = heap s r'" using a' b' c' by simp
  show "count_list (notifs s') r' = count_list (notifs s) r'" using a' b' c' by simp
  show "r' \<in> set (open_orders s') \<longleftrightarrow> r' \<in> set (open_orders s)" using a' b' c' by simp
qed

lemma next_order_distinct:
  assumes "next_order e r s = (res, s')" and "distinct (open_orders s)"
  shows "distinct (open_orders s')"
proof -
  from next_order_chain [OF assms(1)] obtain cs co res2 s2 res3 s3 res4 where
    a: "s2 = s\<lparr>calls := cs\<rparr> \<or> check_fills e co r (s\<lparr>calls := cs\<rparr>) = (res2, s2)" and
    b: "s3 = s2 \<or> closed_path e r s2 = (res3, s3)" and
    c: "s' = s3 \<or> canceled_path r s3 = (res4, s')" by blast
  have "open_orders s2 = open_orders s"
  proof (cases "s2 = s\<lparr>calls := cs\<rparr>")
    case True
    then show ?thesis by simp
  next
    case False
    with a have cf: "check_fills e co r (s\<lparr>calls := cs\<rparr>) = (res2, s2)" by simp
    from check_fills_frame(1) [OF cf] show ?thesis by simp
  qed
  with assms(2) have "distinct (open_orders s2)" by simp
  with b closed_path_distinct have "distinct (open_orders s3)" by blast
  with c canceled_path_distinct show ?thesis by blast
qed

lemma next_order_misc:
  assumes "next_order e r s = (res, s')"
  shows "mappings s' = mappings s"
    and "ccxt_order (heap s' r') = ccxt_order (heap s r')"
    and "data (heap s' r') = data (heap s r')"
    and "next_ref s' = next_ref s"
proof -
  from next_order_chain [OF assms(1)] obtain cs co res2 s2 res3 s3 res4 where
    a: "s2 = s\<lparr>calls := cs\<rparr> \<or> check_fills e co r (s\<lparr>calls := cs\<rparr>) = (res2, s2)" and
    b: "s3 = s2 \<or> closed_path e r s2 = (res3, s3)" and
    c: "s' = s3 \<or> canceled_path r s3 = (res4, s')" by blast
  have a': "mappings s2 = mappings s \<and> ccxt_order (heap s2 r') = ccxt_order (heap s r')
      \<and> data (heap s2 r') = data (heap s r') \<and> next_ref s2 = next_ref s"
  proof (cases "s2 = s\<lparr>calls := cs\<rparr>")
    case True
    then show ?thesis by simp
  next
    case False
    with a have cf: "check_fills e co r (s\<lparr>calls := cs\<rparr>) = (res2, s2)" by simp
    from check_fills_frame(5,10) [OF cf] check_fills_misc(1,2) [OF cf, of r']
    show ?thesis by simp
  qed
  have b': "mappings s3 = mappings s2 \<and> ccxt_order (heap s3 r') = ccxt_order (heap s2 r')
      \<and> data (heap s3 r') = data (heap s2 r') \<and> next_ref s3 = next_ref s2"
    using b closed_path_misc(3,4) [of e r s2 res3 s3] closed_path_misc(1,2) [of e r s2 res3 s3 r']
    by auto
  have c': "mappings s' = mappings s3 \<and> ccxt_order (heap s' r') = ccxt_order (heap s3 r')
      \<and> data (heap s' r') = data (heap s3 r') \<and> next_ref s' = next_ref s3"
    using c canceled_path_misc(1,7) [of r s3 res4 s'] canceled_path_misc(5,6) [of r s3 res4 s' r']
    by auto
  show "mappings s' = mappings s" using a' b' c' by simp
  show "ccxt_order (heap s' r') = ccxt_order (heap s r')" using a' b' c' by simp
  show "data (heap s' r') = data (heap s r')" using a' b' c' by simp
  show "next_ref s' = next_ref s" using a' b' c' by simp
qed

text \<open>
  One iteration, once the order's snapshot \<open>co\<close> has been fetched and its fills have been
  looked at, leaving the broker \<open>s2\<close>.
\<close>

lemma next_order_fetched:
  assumes "py_getitem (ccxt_order (heap s r)) ''id'' = Inr oid"
    and "dn = p_dataname (data (heap s r))"
    and "params = JDict (fmap_of_list [(''type'', JStr ''future'')])"
    and "store_fetch_order e (calls s) oid dn params = Inr co"
    and "check_fills e co r (s\<lparr>calls := calls s @ [FetchOrder oid dn params]\<rparr>) = (fres, s2)"
  shows "next_order e r s =
     (case fres of
        Inl x \<Rightarrow> (Inl x, s2)
      | Inr _ \<Rightarrow>
     (case py_getitem co (closed_key (mappings s2)) of
        Inl x \<Rightarrow> (Inl x, s2)
      | Inr v \<Rightarrow>
     (case (if v = closed_value (mappings s2) then closed_path e r s2 else (Inr (), s2)) of
        (Inl x, s3) \<Rightarrow> (Inl x, s3)
      | (Inr _, s3) \<Rightarrow>
     (case py_getitem co (canceled_key (mappings s3)) of
        Inl x \<Rightarrow> (Inl x, s3)
      | Inr w \<Rightarrow>
          if w = canceled_value (mappings s3) then canceled_path r s3 else (Inr (), s3)))))"
    and "notifs s2 = notifs s" and "open_orders s2 = open_orders s"
    and "status (heap s2 r) = status (heap s r)" and "mappings s2 = mappings s"
    and "positions s2 = positions s" and "data (heap s2 r) = data (heap s r)"
    and "size_o (heap s2 r) = size_o (heap s r)" and "price (heap s2 r) = price (heap s r)"
    and "store_cash s2 = store_cash s" and "store_value s2 = store_value s"
proof -
  show "next_order e r s =
     (case fres of
        Inl x \<Rightarrow> (Inl x, s2)
      | Inr _ \<Rightarrow>
     (case py_getitem co (closed_key (mappings s2)) of
        Inl x \<Rightarrow> (Inl x, s2)
      | Inr v \<Rightarrow>
     (case (if v = closed_value (mappings s2) then closed_path e r s2 else (Inr (), s2)) of
        (Inl x, s3) \<Rightarrow> (Inl x, s3)
      | (Inr _, s3) \<Rightarrow>
     (case py_getitem co (canceled_key (mappings s3)) of
        Inl x \<Rightarrow> (Inl x, s3)
      | Inr w \<Rightarrow>
          if w = canceled_value (mappings s3) then canceled_path r s3 else (Inr (), s3)))))"
    using assms by (simp add: next_order_def split: sum.splits)
  note fr = check_fills_frame [OF assms(5)] check_fills_misc [OF assms(5)]
  show "notifs s2 = notifs s" "open_orders s2 = open_orders s"
    "status (heap s2 r) = status (heap s r)" "mappings s2 = mappings s"
    "positions s2 = positions s" "data (heap s2 r) = data (heap s r)"
    "size_o (heap s2 r) = size_o (heap s r)" "price (heap s2 r) = price (heap s r)"
    "store_cash s2 = store_cash s" "store_value s2 = store_value s"
    using fr by simp_all
qed

lemma next_order_closed:
  assumes "next_order e r s = (res, s')"
    and "distinct (open_orders s)"
    and "py_getitem (ccxt_order (heap s r)) ''id'' = Inr oid"
    and "dn = p_dataname (data (heap s r))"
    and "params = JDict (fmap_of_list [(''type'', JStr ''future'')])"
    and "store_fetch_order e (calls s) oid dn params = Inr co"
    and "check_fills e co r (s\<lparr>calls := calls s @ [FetchOrder oid dn params]\<rparr>) = (Inr (), s2)"
    and "py_getitem co (closed_key (mappings s)) = Inr (closed_value (mappings s))"
    and "fst (position_update e (positions s (dataname_attr (data (heap s r))))
           (size_o (heap s r)) (price (heap s r))) = Inr ()"
  shows "status (heap s' r) = Completed \<and> notifs s' = notifs s @ [r]
         \<and> r \<notin> set (open_orders s')"
proof -
  note f = next_order_fetched [OF assms(3-7)]
  obtain res3 s3 where cp: "closed_path e r s2 = (res3, s3)" by (cases "closed_path e r s2")
  have ok: "fst (position_update e (positions s2 (dataname_attr (data (heap s2 r))))
           (size_o (heap s2 r)) (price (heap s2 r))) = Inr ()"
    using assms(9) f by simp
  note ce = closed_path_effect [OF cp ok]
  have d2: "distinct (open_orders s2)" using assms(2) f by simp
  have out: "r \<notin> set (open_orders s3)" by (rule closed_path_out [OF cp d2 ok])
  have m3: "mappings s3 = mappings s" using closed_path_misc(3) [OF cp] f by simp
  have "s' = s3"
  proof (cases res3)
    case (Inl x)
    with f(1) assms(1,8) f(5) cp show ?thesis by simp
  next
    case (Inr u)
    show ?thesis
    proof (cases "py_getitem co (canceled_key (mappings s3))")
      case (Inl x)
      with f(1) assms(1,8) f(5) cp Inr show ?thesis by simp
    next
      case w: (Inr w)
      show ?thesis
      proof (cases "w = canceled_value (mappings s3)")
        case False
        with f(1) assms(1,8) f(5) cp Inr w show ?thesis by simp
      next
        case True
        with f(1) assms(1,8) f(5) cp Inr w have "canceled_path r s3 = (res, s')" by simp
        from canceled_path_effect(2) [OF this out] show ?thesis .
      qed
    qed
  qed
  with ce(1,2) out f show ?thesis by simp
qed

lemma next_order_canceled:
  assumes "next_order e r s = (res, s')"
    and "distinct (open_orders s)" and "r \<in> set (open_orders s)"
    and "py_getitem (ccxt_order (heap s r)) ''id'' = Inr oid"
    and "dn = p_dataname (data (heap s r))"
    and "params = JDict (fmap_of_list [(''type'', JStr ''future'')])"
    and "store_fetch_order e (calls s) oid dn params = Inr co"
    and "check_fills e co r (s\<lparr>calls := calls s @ [FetchOrder oid dn params]\<rparr>) = (Inr (), s2)"
    and "py_getitem co (closed_key (mappings s)) = Inr v"
    and "v \<noteq> closed_value (mappings s)"
    and "py_getitem co (canceled_key (mappings s)) = Inr (canceled_value (mappings s))"
  shows "status (heap s' r) = Canceled \<and> notifs s' = notifs s @ [r]
         \<and> r \<notin> set (open_orders s')"
proof -
  note f = next_order_fetched [OF assms(4-8)]
  have cn: "canceled_path r s2 = (res, s')"
    using f(1) assms(1,9,10,11) f(5) by simp
  have mem: "r \<in> set (open_orders s2)" and d2: "distinct (open_orders s2)"
    using assms(2,3) f by simp_all
  from canceled_path_effect(1) [OF cn mem] d2 f show ?thesis by simp
qed


lemma next_order_effect:
  assumes "next_order e r s = (res, s')" and "distinct (open_orders s)"
  shows "(notifs s' = notifs s @ [r] \<and> r \<notin> set (open_orders s')
            \<and> (status (heap s' r) = Completed \<or> status (heap s' r) = Canceled))
       \<or> (notifs s' = notifs s \<and> open_orders s' = open_orders s
            \<and> status (heap s' r) = status (heap s r))"
proof (cases "py_getitem (ccxt_order (heap s r)) ''id''")
  case (Inl x)
  with assms show ?thesis by (auto simp: next_order_def)
next
  case oid: (Inr oid)
  define dn where "dn = p_dataname (data (heap s r))"
  define params where "params = JDict (fmap_of_list [(''type'', JStr ''future'')])"
  show ?thesis
  proof (cases "store_fetch_order e (calls s) oid dn params")
    case (Inl x)
    with assms oid show ?thesis
      by (auto simp: next_order_def dn_def params_def)
  next
    case co: (Inr co)
    obtain fres s2 where
      cf: "check_fills e co r (s\<lparr>calls := calls s @ [FetchOrder oid dn params]\<rparr>) = (fres, s2)"
      by (cases "check_fills e co r (s\<lparr>calls := calls s @ [FetchOrder oid dn params]\<rparr>)")
    note f = next_order_fetched [OF oid dn_def params_def co cf]
    show ?thesis
    proof (cases fres)
      case (Inl x)
      with f assms(1) show ?thesis by simp
    next
      case fr: (Inr u)
      then have cf': "check_fills e co r (s\<lparr>calls := calls s @ [FetchOrder oid dn params]\<rparr>)
          = (Inr (), s2)" using cf by simp
      show ?thesis
      proof (cases "py_getitem co (closed_key (mappings s))")
        case (Inl x)
        with f assms(1) fr show ?thesis by simp
      next
        case v: (Inr v)
        show ?thesis
        proof (cases "v = closed_value (mappings s)")
          case True
          with v have match: "py_getitem co (closed_key (mappings s))
              = Inr (closed_value (mappings s))" by simp
          show ?thesis
          proof (cases "fst (position_update e (positions s (dataname_attr (data (heap s r))))
              (size_o (heap s r)) (price (heap s r)))")
            case (Inr u2)
            then have ok: "fst (position_update e (positions s (dataname_attr (data (heap s r))))
              (size_o (heap s r)) (price (heap s r))) = Inr ()" by simp
            from next_order_closed [OF assms(1,2) oid dn_def params_def co cf' match ok]
            show ?thesis by simp
          next
            case (Inl x)
            obtain res3 s3 where cp: "closed_path e r s2 = (res3, s3)"
              by (cases "closed_path e r s2")
            have bad: "fst (position_update e (positions s2 (dataname_attr (data (heap s2 r))))
              (size_o (heap s2 r)) (price (heap s2 r))) = Inl x"
              using Inl f by simp
            note cr = closed_path_raises [OF cp bad]
            have "s' = s3" using f(1) assms(1) fr match f(5) cp cr(1) by simp
            with cr f show ?thesis by simp
          qed
        next
          case False
          show ?thesis
          proof (cases "py_getitem co (canceled_key (mappings s))")
            case (Inl x)
            with f assms(1) fr v False show ?thesis by simp
          next
            case w: (Inr w)
            show ?thesis
            proof (cases "w = canceled_value (mappings s)")
              case wf: False
              with f assms(1) fr v False w show ?thesis by simp
            next
              case wt: True
              with w have cmatch: "py_getitem co (canceled_key (mappings s))
                  = Inr (canceled_value (mappings s))" by simp
              show ?thesis
              proof (cases "r \<in> set (open_orders s)")
                case True
                from next_order_canceled [OF assms(1,2) True oid dn_def params_def co cf' v
                    False cmatch]
                show ?thesis by simp
              next
                case nin: False
                have cn: "canceled_path r s2 = (res, s')"
                  using f(1) assms(1) fr v False cmatch f(5) by simp
                from nin f have "r \<notin> set (open_orders s2)" by simp
                from canceled_path_effect(2) [OF cn this] f show ?thesis by simp
              qed
            qed
          qed
        qed
      qed
    qed
  qed
qed

lemma next_loop_effect:
  assumes "next_loop e rs s = (res, s')" and "distinct rs" and "distinct (open_orders s)"
  shows "distinct (open_orders s')
     \<and> (\<forall>r. r \<notin> set rs \<longrightarrow>
           heap s' r = heap s r \<and> count_list (notifs s') r = count_list (notifs s) r
           \<and> (r \<in> set (open_orders s') \<longleftrightarrow> r \<in> set (open_orders s)))
     \<and> (\<forall>r. r \<in> set rs \<longrightarrow>
           (count_list (notifs s') r = count_list (notifs s) r + 1
              \<and> r \<notin> set (open_orders s')
              \<and> (status (heap s' r) = Completed \<or> status (heap s' r) = Canceled))
         \<or> (count_list (notifs s') r = count_list (notifs s) r
              \<and> (r \<in> set (open_orders s') \<longleftrightarrow> r \<in> set (open_orders s))
              \<and> status (heap s' r) = status (heap s r)))"
  using assms
proof (induction rs arbitrary: s)
  case Nil
  then show ?case by simp
next
  case (Cons a rs)
  obtain res1 s1 where st: "next_order e a s = (res1, s1)" by (cases "next_order e a s")
  note eff = next_order_effect [OF st Cons.prems(3)]
  note fr = next_order_frame [OF st]
  note d1 = next_order_distinct [OF st Cons.prems(3)]
  have own: "(count_list (notifs s1) a = count_list (notifs s) a + 1
              \<and> a \<notin> set (open_orders s1)
              \<and> (status (heap s1 a) = Completed \<or> status (heap s1 a) = Canceled))
         \<or> (count_list (notifs s1) a = count_list (notifs s) a
              \<and> (a \<in> set (open_orders s1) \<longleftrightarrow> a \<in> set (open_orders s))
              \<and> status (heap s1 a) = status (heap s a))"
    using eff by auto
  show ?case
  proof (cases res1)
    case (Inl x)
    with st Cons.prems(1) have fin: "s' = s1" by simp
    from Cons.prems(2) have anin: "a \<notin> set rs" by simp
    have Q2: "\<forall>r. r \<notin> set (a # rs) \<longrightarrow>
           heap s1 r = heap s r \<and> count_list (notifs s1) r = count_list (notifs s) r
           \<and> (r \<in> set (open_orders s1) \<longleftrightarrow> r \<in> set (open_orders s))"
      using fr by simp
    have Q3: "\<forall>r. r \<in> set (a # rs) \<longrightarrow>
           (count_list (notifs s1) r = count_list (notifs s) r + 1
              \<and> r \<notin> set (open_orders s1)
              \<and> (status (heap s1 r) = Completed \<or> status (heap s1 r) = Canceled))
         \<or> (count_list (notifs s1) r = count_list (notifs s) r
              \<and> (r \<in> set (open_orders s1) \<longleftrightarrow> r \<in> set (open_orders s))
              \<and> status (heap s1 r) = status (heap s r))"
    proof (intro allI impI)
      fix r assume mem: "r \<in> set (a # rs)"
      show "(count_list (notifs s1) r = count_list (notifs s) r + 1
              \<and> r \<notin> set (open_orders s1)
              \<and> (status (heap s1 r) = Completed \<or> status (heap s1 r) = Canceled))
         \<or> (count_list (notifs s1) r = count_list (notifs s) r
              \<and> (r \<in> set (open_orders s1) \<longleftrightarrow> r \<in> set (open_orders s))
              \<and> status (heap s1 r) = status (heap s r))"
      proof (cases "r = a")
        case True
        with own show ?thesis by simp
      next
        case False
        from fr [OF False] show ?thesis by simp
      qed
    qed
    from d1 Q2 Q3 show ?thesis unfolding fin by blast
  next
    case (Inr u)
    with st Cons.prems(1) have rest: "next_loop e rs s1 = (res, s')" by simp
    from Cons.prems(2) have drs: "distinct rs" and anin: "a \<notin> set rs" by simp_all
    note ih = Cons.IH [OF rest drs d1]
    have A: "distinct (open_orders s')" using ih by simp
    have B: "\<And>r. r \<notin> set rs \<Longrightarrow> heap s' r = heap s1 r
        \<and> count_list (notifs s') r = count_list (notifs s1) r
        \<and> (r \<in> set (open_orders s') \<longleftrightarrow> r \<in> set (open_orders s1))"
      using ih by blast
    have C: "\<And>r. r \<in> set rs \<Longrightarrow>
           (count_list (notifs s') r = count_list (notifs s1) r + 1
              \<and> r \<notin> set (open_orders s')
              \<and> (status (heap s' r) = Completed \<or> status (heap s' r) = Canceled))
         \<or> (count_list (notifs s') r = count_list (notifs s1) r
              \<and> (r \<in> set (open_orders s') \<longleftrightarrow> r \<in> set (open_orders s1))
              \<and> status (heap s' r) = status (heap s1 r))"
      using ih by blast
    have P2: "\<forall>r. r \<notin> set (a # rs) \<longrightarrow>
           heap s' r = heap s r \<and> count_list (notifs s') r = count_list (notifs s) r
           \<and> (r \<in> set (open_orders s') \<longleftrightarrow> r \<in> set (open_orders s))"
    proof (intro allI impI)
      fix r assume "r \<notin> set (a # rs)"
      then have ne: "r \<noteq> a" and nin: "r \<notin> set rs" by simp_all
      from B [OF nin] fr [OF ne] show "heap s' r = heap s r
        \<and> count_list (notifs s') r = count_list (notifs s) r
        \<and> (r \<in> set (open_orders s') \<longleftrightarrow> r \<in> set (open_orders s))" by simp
    qed
    have P3: "\<forall>r. r \<in> set (a # rs) \<longrightarrow>
           (count_list (notifs s') r = count_list (notifs s) r + 1
              \<and> r \<notin> set (open_orders s')
              \<and> (status (heap s' r) = Completed \<or> status (heap s' r) = Canceled))
         \<or> (count_list (notifs s') r = count_list (notifs s) r
              \<and> (r \<in> set (open_orders s') \<longleftrightarrow> r \<in> set (open_orders s))
              \<and> status (heap s' r) = status (heap s r))"
    proof (intro allI impI)
      fix r assume mem: "r \<in> set (a # rs)"
      show "(count_list (notifs s') r = count_list (notifs s) r + 1
              \<and> r \<notin> set (open_orders s')
              \<and> (status (heap s' r) = Completed \<or> status (heap s' r) = Canceled))
         \<or> (count_list (notifs s') r = count_list (notifs s) r
              \<and> (r \<in> set (open_orders s') \<longleftrightarrow> r \<in> set (open_orders s))
              \<and> status (heap s' r) = status (heap s r))"
      proof (cases "r = a")
        case True
        with B [OF anin] own show ?thesis by auto
      next
        case False
        with mem have "r \<in> set rs" by simp
        from C [OF this] fr [OF False] show ?thesis by auto
      qed
    qed
    from A P2 P3 show ?thesis by blast
  qed
qed


lemma next_loop_append:
  "next_loop e (pre @ post) s =
     (case next_loop e pre s of
        (Inl x, s1) \<Rightarrow> (Inl x, s1)
      | (Inr _, s1) \<Rightarrow> next_loop e post s1)"
  by (induction pre arbitrary: s) (auto split: prod.splits sum.splits)

lemma next_order_store:
  assumes "next_order e r s = (res, s')" and "distinct (open_orders s)"
  shows "(store_cash s' = store_cash s \<and> store_value s' = store_value s)
       \<or> status (heap s' r) = Completed"
proof -
  from next_order_chain [OF assms(1)] obtain cs co res2 s2 res3 s3 res4 where
    a: "s2 = s\<lparr>calls := cs\<rparr> \<or> check_fills e co r (s\<lparr>calls := cs\<rparr>) = (res2, s2)" and
    b: "s3 = s2 \<or> closed_path e r s2 = (res3, s3)" and
    c: "s' = s3 \<or> canceled_path r s3 = (res4, s')" by blast
  have a': "store_cash s2 = store_cash s \<and> store_value s2 = store_value s
      \<and> open_orders s2 = open_orders s"
  proof (cases "s2 = s\<lparr>calls := cs\<rparr>")
    case True
    then show ?thesis by simp
  next
    case False
    with a have cf: "check_fills e co r (s\<lparr>calls := cs\<rparr>) = (res2, s2)" by simp
    from check_fills_frame(1,7,8) [OF cf] show ?thesis by simp
  qed
  show ?thesis
  proof (cases "s3 = s2")
    case True
    with c canceled_path_misc(2,3) [of r s3 res4 s'] a' show ?thesis by auto
  next
    case False
    with b have cp: "closed_path e r s2 = (res3, s3)" by simp
    from a' assms(2) have d2: "distinct (open_orders s2)" by simp
    show ?thesis
    proof (cases "fst (position_update e (positions s2 (dataname_attr (data (heap s2 r))))
              (size_o (heap s2 r)) (price (heap s2 r)))")
      case (Inr u)
      then have ok: "fst (position_update e (positions s2 (dataname_attr (data (heap s2 r))))
              (size_o (heap s2 r)) (price (heap s2 r))) = Inr ()" by simp
      from closed_path_out [OF cp d2 ok] have out: "r \<notin> set (open_orders s3)" .
      have "s' = s3" using c canceled_path_effect(2) [of r s3 res4 s'] out by auto
      with closed_path_effect(2) [OF cp ok] show ?thesis by simp
    next
      case (Inl x)
      note cr = closed_path_raises [OF cp Inl]
      from c canceled_path_misc(2,3) [of r s3 res4 s'] cr a' show ?thesis by auto
    qed
  qed
qed

lemma next_loop_store:
  assumes "next_loop e rs s = (res, s')" and "distinct rs" and "distinct (open_orders s)"
  shows "(store_cash s' = store_cash s \<and> store_value s' = store_value s)
       \<or> (\<exists>r \<in> set rs. status (heap s' r) = Completed)"
  using assms
proof (induction rs arbitrary: s)
  case Nil
  then show ?case by simp
next
  case (Cons a rs)
  obtain res1 s1 where st: "next_order e a s = (res1, s1)" by (cases "next_order e a s")
  note one = next_order_store [OF st Cons.prems(3)]
  show ?case
  proof (cases res1)
    case (Inl x)
    with st Cons.prems(1) have "s' = s1" by simp
    with one show ?thesis by auto
  next
    case (Inr u)
    with st Cons.prems(1) have rest: "next_loop e rs s1 = (res, s')" by simp
    from Cons.prems(2) have drs: "distinct rs" and anin: "a \<notin> set rs" by simp_all
    note d1 = next_order_distinct [OF st Cons.prems(3)]
    from next_loop_effect [OF rest drs d1] anin have keep: "heap s' a = heap s1 a" by blast
    from Cons.IH [OF rest drs d1] one keep show ?thesis by auto
  qed
qed

lemma cancel_store_aux:
  assumes "cancel e r params s = (res, s')"
  shows "store_cash s' = store_cash s \<and> store_value s' = store_value s"
  using assms
  by (auto simp: cancel_def Let_def notify_def set_status_def list_remove_def
      split: sum.splits if_splits)

lemma cancel_store:
  "store_cash (snd (cancel e r params s)) = store_cash s
   \<and> store_value (snd (cancel e r params s)) = store_value s"
  by (rule cancel_store_aux [of e r params s "fst (cancel e r params s)"]) simp

lemma submit_store:
  "store_cash (snd (submit e ow d exectype side amount prc params s)) = store_cash s
   \<and> store_value (snd (submit e ow d exectype side amount prc params s)) = store_value s"
  by (simp add: submit_def Let_def notify_def split: sum.splits json.splits option.splits)

lemma close_store_aux:
  assumes "close e ow d sz all kwargs s = (res, s')"
  shows "store_cash s' = store_cash s \<and> store_value s' = store_value s"
proof -
  define s1 where "s1 = s\<lparr>calls := calls s @ [GetBinancePositions]\<rparr>"
  have s1: "store_cash s1 = store_cash s" "store_value s1 = store_value s"
    by (simp_all add: s1_def)
  have "s' = s1
      \<or> (\<exists>a p x k. s' = snd (sell e ow d a p x k s1))
      \<or> (\<exists>a p x k. s' = snd (buy e ow d a p x k s1))"
    using assms unfolding close_def Let_def s1_def [symmetric]
    by (auto split: sum.splits json.splits list.splits if_splits) (metis snd_conv)+
  with s1 show ?thesis
    by (auto simp: buy_def sell_def submit_store)
qed

lemma close_store:
  "store_cash (snd (close e ow d sz all kwargs s)) = store_cash s
   \<and> store_value (snd (close e ow d sz all kwargs s)) = store_value s"
  by (rule close_store_aux [of e ow d sz all kwargs s "fst (close e ow d sz all kwargs s)"]) simp


subsection \<open>The open orders are pairwise different\<close>

text \<open>
  The open orders are pairwise different references below \<open>next_ref\<close>: a submission
  appends the reference it has just allocated, and \<^verbatim>\<open>cancel\<close> and \<^verbatim>\<open>next\<close> only remove.
\<close>

lemma submit_open_orders:
  assumes "submit e ow d exectype side amount prc params s = (res, s')"
    and "distinct (open_orders s)" and "\<forall>q \<in> set (open_orders s). q < next_ref s"
  shows "distinct (open_orders s') \<and> (\<forall>q \<in> set (open_orders s'). q < next_ref s')"
proof -
  have "(open_orders s' = open_orders s \<and> next_ref s' = next_ref s)
      \<or> (open_orders s' = open_orders s @ [next_ref s] \<and> next_ref s' = Suc (next_ref s))"
    using assms(1)
    by (auto simp: submit_def Let_def notify_def split: sum.splits json.splits if_splits)
  with assms(2,3) show ?thesis by (auto simp: less_Suc_eq)
qed

lemma cancel_open_orders:
  assumes "cancel e r params s = (res, s')"
    and "distinct (open_orders s)" and "\<forall>q \<in> set (open_orders s). q < next_ref s"
  shows "distinct (open_orders s') \<and> (\<forall>q \<in> set (open_orders s'). q < next_ref s')"
proof -
  have "(open_orders s' = open_orders s \<or> open_orders s' = remove1 r (open_orders s))
      \<and> next_ref s' = next_ref s"
    using assms(1)
    by (auto simp: cancel_def Let_def notify_def set_status_def list_remove_def
        split: sum.splits if_splits)
  with assms(2,3) show ?thesis by (auto dest: notin_set_remove1)
qed

lemma next_loop_next_ref:
  "next_loop e rs s = (res, s') \<Longrightarrow> next_ref s' = next_ref s"
proof (induction rs arbitrary: s)
  case Nil
  then show ?case by simp
next
  case (Cons a rs)
  obtain res1 s1 where st: "next_order e a s = (res1, s1)" by (cases "next_order e a s")
  from next_order_misc(4) [OF st] Cons st show ?case
    by (cases res1) auto
qed

lemma broker_next_open_orders:
  assumes "broker_next e s = (res, s')"
    and "distinct (open_orders s)" and "\<forall>q \<in> set (open_orders s). q < next_ref s"
  shows "distinct (open_orders s') \<and> (\<forall>q \<in> set (open_orders s'). q < next_ref s')"
proof -
  from assms(1) have loop: "next_loop e (open_orders s) s = (res, s')"
    by (simp add: broker_next_def)
  note eff = next_loop_effect [OF loop assms(2) assms(2)]
  have sub: "set (open_orders s') \<subseteq> set (open_orders s)"
  proof
    fix q assume q: "q \<in> set (open_orders s')"
    show "q \<in> set (open_orders s)"
    proof (rule ccontr)
      assume "q \<notin> set (open_orders s)"
      with eff q show False by blast
    qed
  qed
  from eff have "distinct (open_orders s')" by blast
  with sub assms(3) next_loop_next_ref [OF loop] show ?thesis by auto
qed

subsection \<open>Facts about the example runs\<close>

lemma broker_ex_simps:
  "heap (broker_ex m os) r = (if r = 0 then order_ex ''a'' else order_ex ''b'')"
  "mappings (broker_ex m os) = m" "open_orders (broker_ex m os) = os"
  "notifs (broker_ex m os) = []" "calls (broker_ex m os) = []"
  "store_cash (broker_ex m os) = JNum 500" "store_value (broker_ex m os) = JNum 600"
  "order_types (broker_ex m os) = (\<lambda>_. None)"
  by (simp_all add: broker_ex_def)

lemma order_ex_simps:
  "py_getitem (ccxt_order (order_ex oid)) ''id'' = Inr (JStr oid)"
  "p_dataname (data (order_ex oid)) = ''BTC/USD''"
  "status (order_ex oid) = Created" "executed_fills (order_ex oid) = []"
  by (simp_all add: order_ex_def py_getitem_def feed_btc_def)

lemma snapshot_simps:
  "py_getitem (snapshot oid st trades) ''status'' = Inr (JStr st)"
  "py_getitem (snapshot oid st trades) ''trades'' = Inr trades"
  by (simp_all add: snapshot_def py_getitem_def)

lemma default_mappings_simps:
  "closed_key default_mappings = ''status''" "closed_value default_mappings = JStr ''closed''"
  "canceled_key default_mappings = ''status''"
  "canceled_value default_mappings = JStr ''canceled''"
  by (simp_all add: default_mappings_def)

subsection \<open>The reconciliation pass on examples\<close>

lemmas next_eval_defs = broker_next_def next_order_def check_fills_def closed_path_def
  canceled_path_def get_balance_def notify_def set_status_def list_remove_def py_getitem_def
  py_iter_def execute_def execute_ex_def update_ex_def Let_def broker_ex_def store_ex_def order_ex_def feed_btc_def
  snapshot_def default_mappings_def result_mappings_def fill_f1_def snapshot_both_def

lemma first_poll:
  "broker_next store_same_fill (broker_ex default_mappings [0]) =
     (Inr (), (broker_ex default_mappings [0])
        \<lparr>heap := (heap (broker_ex default_mappings [0]))
             (0 := (order_ex ''a'')
                \<lparr>executed_fills := [JStr ''f1''],
                 executed := [(JStr ''2021-01-01T00:00:00Z'', JNum 1, JNum 100)]\<rparr>),
         calls := [FetchOrder (JStr ''a'') ''BTC/USD''
                     (JDict (fmap_of_list [(''type'', JStr ''future'')]))]\<rparr>)"
  by (simp add: store_same_fill_def next_eval_defs)

text \<open>
  Claim C1. The exchange reports the same open order with the same single fill \<open>f1\<close> on
  two consecutive polls. The test before \<^verbatim>\<open>execute\<close> looks for the fill itself in
  \<^verbatim>\<open>executed_fills\<close>, which holds identifiers, so it never finds it: after the second
  poll the fill has been executed twice and its identifier is in the list twice.
\<close>

theorem next_applies_repolled_fill_again:
  "executed_fills (heap (snd (broker_next store_same_fill
       (snd (broker_next store_same_fill (broker_ex default_mappings [0]))))) 0)
     = [JStr ''f1'', JStr ''f1'']
   \<and> executed (heap (snd (broker_next store_same_fill
       (snd (broker_next store_same_fill (broker_ex default_mappings [0]))))) 0)
     = [(JStr ''2021-01-01T00:00:00Z'', JNum 1, JNum 100),
        (JStr ''2021-01-01T00:00:00Z'', JNum 1, JNum 100)]"
  by (simp add: first_poll) (simp add: store_same_fill_def next_eval_defs)

text \<open>
  Claim C2. With the mapping table of the class docstring, a snapshot with
  \<^verbatim>\<open>status = closed\<close> and \<^verbatim>\<open>result = 1\<close> satisfies both conditions. The closed branch
  completes the order, notifies it, removes it and refreshes the balance; the canceled
  branch then removes it a second time, and the pass ends with \<^verbatim>\<open>ValueError\<close>.
\<close>

theorem next_closed_and_canceled_raises:
  "fst (broker_next store_both (broker_ex result_mappings [0])) = Inl ValueError
   \<and> status (heap (snd (broker_next store_both (broker_ex result_mappings [0]))) 0) = Completed
   \<and> notifs (snd (broker_next store_both (broker_ex result_mappings [0]))) = [0]
   \<and> open_orders (snd (broker_next store_both (broker_ex result_mappings [0]))) = []
   \<and> calls (snd (broker_next store_both (broker_ex result_mappings [0]))) =
       [FetchOrder (JStr ''a'') ''BTC/USD'' (JDict (fmap_of_list [(''type'', JStr ''future'')])),
        GetBalance]"
  by (simp add: store_both_def next_eval_defs)

text \<open>
  Claim C3, as stated, fails: with two open orders, a failing fetch for the first ends the
  pass with that exception. The second order is never fetched, stays open and is not
  notified, although the exchange reports it closed (on its own it is notified).
\<close>

theorem next_fetch_failure_skips_rest:
  "fst (broker_next store_a_fails (broker_ex default_mappings [0, 1]))
     = Inl (StoreError ''timeout'')
   \<and> calls (snd (broker_next store_a_fails (broker_ex default_mappings [0, 1]))) =
       [FetchOrder (JStr ''a'') ''BTC/USD'' (JDict (fmap_of_list [(''type'', JStr ''future'')]))]
   \<and> open_orders (snd (broker_next store_a_fails (broker_ex default_mappings [0, 1]))) = [0, 1]
   \<and> notifs (snd (broker_next store_a_fails (broker_ex default_mappings [0, 1]))) = []
   \<and> notifs (snd (broker_next store_a_fails (broker_ex default_mappings [1]))) = [1]"
  by (simp add: store_a_fails_def next_eval_defs)

text \<open>
  Claim C3, amended. An exception raised while one order is processed ends the whole pass:
  the orders before it in the list have been processed, the exception reaches the caller
  of \<^verbatim>\<open>next\<close> with the broker as that order's iteration left it, and the orders after it
  are not processed in this pass.
\<close>

theorem next_exception_aborts_pass:
  assumes "open_orders s = pre @ r # post"
    and "next_loop e pre s = (Inr (), s1)"
    and "next_order e r s1 = (Inl x, s2)"
  shows "broker_next e s = (Inl x, s2)"
  using assms by (simp add: broker_next_def next_loop_append)

theorem next_exception_aborts_pass_witness:
  "fst (broker_next store_a_fails (broker_ex default_mappings [1, 0, 2]))
     = Inl (StoreError ''timeout'')
   \<and> snd (broker_next store_a_fails (broker_ex default_mappings [1, 0, 2]))
     = snd (next_order store_a_fails 0
         (snd (next_loop store_a_fails [1] (broker_ex default_mappings [1, 0, 2]))))"
proof -
  have 1: "open_orders (broker_ex default_mappings [1, 0, 2]) = [1] @ 0 # [2]"
    by (simp add: broker_ex_simps)
  have "fst (next_loop store_a_fails [1] (broker_ex default_mappings [1, 0, 2])) = Inr ()"
    by (simp add: store_a_fails_def next_eval_defs)
  then have 2: "next_loop store_a_fails [1] (broker_ex default_mappings [1, 0, 2]) =
      (Inr (), snd (next_loop store_a_fails [1] (broker_ex default_mappings [1, 0, 2])))"
    by (metis prod.collapse)
  have "fst (next_order store_a_fails 0
      (snd (next_loop store_a_fails [1] (broker_ex default_mappings [1, 0, 2]))))
      = Inl (StoreError ''timeout'')"
    by (simp add: store_a_fails_def next_eval_defs)
  then have 3: "next_order store_a_fails 0
      (snd (next_loop store_a_fails [1] (broker_ex default_mappings [1, 0, 2]))) =
      (Inl (StoreError ''timeout''), snd (next_order store_a_fails 0
         (snd (next_loop store_a_fails [1] (broker_ex default_mappings [1, 0, 2])))))"
    by (metis prod.collapse)
  from next_exception_aborts_pass [OF 1 2 3] show ?thesis by simp
qed

subsection \<open>Submission and cancellation\<close>

text \<open>
  Claim C5. A submission whose size is zero or whose price is zero returns no order and
  leaves the broker as it was: no call on the store, nothing appended to the open orders,
  no notification, no exception. The same holds through \<^verbatim>\<open>buy\<close> and \<^verbatim>\<open>sell\<close>.
\<close>

theorem submit_rejects_zero:
  assumes "amount = JNum 0 \<or> prc = JNum 0"
  shows "submit e ow d exectype side amount prc params s = (Inr None, s)
       \<and> buy e ow d amount prc exectype kwargs s = (Inr None, s)
       \<and> sell e ow d amount prc exectype kwargs s = (Inr None, s)"
  using assms by (auto simp: submit_def buy_def sell_def)

theorem submit_rejects_zero_witness:
  "submit store_cancels ''strategy'' feed_btc JNull ''buy'' (JNum 0) (JNum 100) fmempty
       (broker_ex default_mappings [0]) = (Inr None, broker_ex default_mappings [0])
   \<and> buy store_cancels ''strategy'' feed_btc (JNum 0) (JNum 100) JNull fmempty
       (broker_ex default_mappings [0]) = (Inr None, broker_ex default_mappings [0])
   \<and> sell store_cancels ''strategy'' feed_btc (JNum 0) (JNum 100) JNull fmempty
       (broker_ex default_mappings [0]) = (Inr None, broker_ex default_mappings [0])"
proof -
  have h: "JNum 0 = JNum 0 \<or> JNum 100 = JNum 0" by simp
  from submit_rejects_zero [OF h] show ?thesis by simp
qed

text \<open>
  Claim C6. When the snapshot fetched by \<^verbatim>\<open>cancel\<close> satisfies the closed condition, the
  order is returned and the only change to the broker is the record of that one fetch: no
  cancel call is made, and the orders, the open orders and the notifications are as before.
\<close>

theorem cancel_already_closed:
  assumes "py_getitem (ccxt_order (heap s r)) ''id'' = Inr oID"
    and "dn = p_dataname (data (heap s r))"
    and "params1 = (if params = JNull then JDict fmempty else params)"
    and "store_fetch_order e (calls s) oID dn params1 = Inr co"
    and "py_getitem co (closed_key (mappings s)) = Inr (closed_value (mappings s))"
  shows "cancel e r params s = (Inr r, s\<lparr>calls := calls s @ [FetchOrder oID dn params1]\<rparr>)"
  using assms by (simp add: cancel_def Let_def)

theorem cancel_already_closed_witness:
  "cancel store_a_closed 0 JNull (broker_ex default_mappings [0, 1]) =
     (Inr 0, (broker_ex default_mappings [0, 1])
        \<lparr>calls := [FetchOrder (JStr ''a'') ''BTC/USD'' (JDict fmempty)]\<rparr>)"
proof -
  have 1: "py_getitem (ccxt_order (heap (broker_ex default_mappings [0, 1]) 0)) ''id''
      = Inr (JStr ''a'')"
    by (simp add: broker_ex_simps order_ex_simps)
  have 2: "''BTC/USD'' = p_dataname (data (heap (broker_ex default_mappings [0, 1]) 0))"
    by (simp add: broker_ex_simps order_ex_simps)
  have 3: "JDict fmempty = (if JNull = JNull then JDict fmempty else JNull)" by simp
  have 4: "store_fetch_order store_a_closed (calls (broker_ex default_mappings [0, 1]))
      (JStr ''a'') ''BTC/USD'' (JDict fmempty) = Inr (snapshot (JStr ''a'') ''closed'' JNull)"
    by (simp add: store_a_closed_def store_ex_def)
  have 5: "py_getitem (snapshot (JStr ''a'') ''closed'' JNull)
      (closed_key (mappings (broker_ex default_mappings [0, 1])))
      = Inr (closed_value (mappings (broker_ex default_mappings [0, 1])))"
    by (simp add: broker_ex_simps default_mappings_simps snapshot_simps)
  from cancel_already_closed [OF 1 2 3 4 5] show ?thesis
    by (simp add: broker_ex_simps)
qed

text \<open>
  Claim C8. The order is not closed, the cancel call has been made and its answer satisfies
  the canceled condition, but the order is not among the open orders: the failed removal is
  caught, \<^verbatim>\<open>cancel\<close> returns the order, and the broker has changed only by the record of
  the two calls (the order is not marked canceled and not notified).
\<close>

theorem cancel_absent_swallowed:
  assumes "py_getitem (ccxt_order (heap s r)) ''id'' = Inr oID"
    and "dn = p_dataname (data (heap s r))"
    and "params1 = (if params = JNull then JDict fmempty else params)"
    and "store_fetch_order e (calls s) oID dn params1 = Inr co"
    and "py_getitem co (closed_key (mappings s)) = Inr v"
    and "v \<noteq> closed_value (mappings s)"
    and "store_cancel_order e (calls s @ [FetchOrder oID dn params1]) oID dn params1 = Inr co2"
    and "py_getitem co2 (canceled_key (mappings s)) = Inr (canceled_value (mappings s))"
    and "r \<notin> set (open_orders s)"
  shows "cancel e r params s =
     (Inr r, s\<lparr>calls := calls s @ [FetchOrder oID dn params1, CancelOrder oID dn params1]\<rparr>)"
  using assms by (simp add: cancel_def Let_def list_remove_def)

theorem cancel_absent_swallowed_witness:
  "cancel store_cancels 0 JNull (broker_ex default_mappings [1]) =
     (Inr 0, (broker_ex default_mappings [1])
        \<lparr>calls := [FetchOrder (JStr ''a'') ''BTC/USD'' (JDict fmempty),
                   CancelOrder (JStr ''a'') ''BTC/USD'' (JDict fmempty)]\<rparr>)"
proof -
  have 1: "py_getitem (ccxt_order (heap (broker_ex default_mappings [1]) 0)) ''id''
      = Inr (JStr ''a'')"
    by (simp add: broker_ex_simps order_ex_simps)
  have 2: "''BTC/USD'' = p_dataname (data (heap (broker_ex default_mappings [1]) 0))"
    by (simp add: broker_ex_simps order_ex_simps)
  have 3: "JDict fmempty = (if JNull = JNull then JDict fmempty else JNull)" by simp
  have 4: "store_fetch_order store_cancels (calls (broker_ex default_mappings [1]))
      (JStr ''a'') ''BTC/USD'' (JDict fmempty) = Inr (snapshot (JStr ''a'') ''open'' JNull)"
    by (simp add: store_cancels_def store_ex_def)
  have 5: "py_getitem (snapshot (JStr ''a'') ''open'' JNull)
      (closed_key (mappings (broker_ex default_mappings [1]))) = Inr (JStr ''open'')"
    by (simp add: broker_ex_simps default_mappings_simps snapshot_simps)
  have 6: "JStr ''open'' \<noteq> closed_value (mappings (broker_ex default_mappings [1]))"
    by (simp add: broker_ex_simps default_mappings_simps)
  have 7: "store_cancel_order store_cancels
      (calls (broker_ex default_mappings [1])
         @ [FetchOrder (JStr ''a'') ''BTC/USD'' (JDict fmempty)])
      (JStr ''a'') ''BTC/USD'' (JDict fmempty) = Inr (snapshot (JStr ''a'') ''canceled'' JNull)"
    by (simp add: store_cancels_def store_ex_def)
  have 8: "py_getitem (snapshot (JStr ''a'') ''canceled'' JNull)
      (canceled_key (mappings (broker_ex default_mappings [1])))
      = Inr (canceled_value (mappings (broker_ex default_mappings [1])))"
    by (simp add: broker_ex_simps default_mappings_simps snapshot_simps)
  have 9: "0 \<notin> set (open_orders (broker_ex default_mappings [1]))"
    by (simp add: broker_ex_simps)
  from cancel_absent_swallowed [OF 1 2 3 4 5 6 7 8 9] show ?thesis
    by (simp add: broker_ex_simps)
qed

text \<open>
  Claim C10. The order is not closed, the cancel call has been made and the mapped field of
  its answer differs from the canceled value: \<^verbatim>\<open>cancel\<close> returns the order, and the broker
  has changed only by the record of the two calls, so the order stays among the open
  orders, its status is what it was and nothing is notified.
\<close>

theorem cancel_not_confirmed_keeps_order:
  assumes "py_getitem (ccxt_order (heap s r)) ''id'' = Inr oID"
    and "dn = p_dataname (data (heap s r))"
    and "params1 = (if params = JNull then JDict fmempty else params)"
    and "store_fetch_order e (calls s) oID dn params1 = Inr co"
    and "py_getitem co (closed_key (mappings s)) = Inr v"
    and "v \<noteq> closed_value (mappings s)"
    and "store_cancel_order e (calls s @ [FetchOrder oID dn params1]) oID dn params1 = Inr co2"
    and "py_getitem co2 (canceled_key (mappings s)) = Inr w"
    and "w \<noteq> canceled_value (mappings s)"
  shows "cancel e r params s =
     (Inr r, s\<lparr>calls := calls s @ [FetchOrder oID dn params1, CancelOrder oID dn params1]\<rparr>)"
  using assms by (simp add: cancel_def Let_def)

theorem cancel_not_confirmed_keeps_order_witness:
  "cancel store_keeps_open 0 JNull (broker_ex default_mappings [0, 1]) =
     (Inr 0, (broker_ex default_mappings [0, 1])
        \<lparr>calls := [FetchOrder (JStr ''a'') ''BTC/USD'' (JDict fmempty),
                   CancelOrder (JStr ''a'') ''BTC/USD'' (JDict fmempty)]\<rparr>)"
proof -
  have 1: "py_getitem (ccxt_order (heap (broker_ex default_mappings [0, 1]) 0)) ''id''
      = Inr (JStr ''a'')"
    by (simp add: broker_ex_simps order_ex_simps)
  have 2: "''BTC/USD'' = p_dataname (data (heap (broker_ex default_mappings [0, 1]) 0))"
    by (simp add: broker_ex_simps order_ex_simps)
  have 3: "JDict fmempty = (if JNull = JNull then JDict fmempty else JNull)" by simp
  have 4: "store_fetch_order store_keeps_open (calls (broker_ex default_mappings [0, 1]))
      (JStr ''a'') ''BTC/USD'' (JDict fmempty) = Inr (snapshot (JStr ''a'') ''open'' JNull)"
    by (simp add: store_keeps_open_def store_ex_def)
  have 5: "py_getitem (snapshot (JStr ''a'') ''open'' JNull)
      (closed_key (mappings (broker_ex default_mappings [0, 1]))) = Inr (JStr ''open'')"
    by (simp add: broker_ex_simps default_mappings_simps snapshot_simps)
  have 6: "JStr ''open'' \<noteq> closed_value (mappings (broker_ex default_mappings [0, 1]))"
    by (simp add: broker_ex_simps default_mappings_simps)
  have 7: "store_cancel_order store_keeps_open
      (calls (broker_ex default_mappings [0, 1])
         @ [FetchOrder (JStr ''a'') ''BTC/USD'' (JDict fmempty)])
      (JStr ''a'') ''BTC/USD'' (JDict fmempty) = Inr (snapshot (JStr ''a'') ''open'' JNull)"
    by (simp add: store_keeps_open_def store_ex_def)
  have 8: "py_getitem (snapshot (JStr ''a'') ''open'' JNull)
      (canceled_key (mappings (broker_ex default_mappings [0, 1]))) = Inr (JStr ''open'')"
    by (simp add: broker_ex_simps default_mappings_simps snapshot_simps)
  have 9: "JStr ''open'' \<noteq> canceled_value (mappings (broker_ex default_mappings [0, 1]))"
    by (simp add: broker_ex_simps default_mappings_simps)
  from cancel_not_confirmed_keeps_order [OF 1 2 3 4 5 6 7 8 9] show ?thesis
    by (simp add: broker_ex_simps)
qed

subsection \<open>Terminal states\<close>






subsection \<open>Cash and value\<close>

text \<open>
  Claim C9. \<^verbatim>\<open>getcash\<close> and \<^verbatim>\<open>getvalue\<close> return the store's cached \<^verbatim>\<open>_cash\<close> and
  \<^verbatim>\<open>_value\<close>, make no call on the store and change nothing but the broker's own copy of
  the figure. The store's figures are left as they are by \<^verbatim>\<open>cancel\<close>, by a submission
  and by \<^verbatim>\<open>close\<close>; a reconciliation pass over pairwise different open orders changes
  them only when it completes one of these orders.
\<close>

theorem getcash_getvalue_cached:
  "getcash s = (store_cash s, s\<lparr>broker_cash := store_cash s\<rparr>)
   \<and> getvalue s = (store_value s, s\<lparr>broker_value := store_value s\<rparr>)
   \<and> calls (snd (getcash s)) = calls s \<and> calls (snd (getvalue s)) = calls s
   \<and> store_cash (snd (getcash s)) = store_cash s \<and> store_value (snd (getcash s)) = store_value s
   \<and> store_cash (snd (getvalue s)) = store_cash s \<and> store_value (snd (getvalue s)) = store_value s
   \<and> store_cash (snd (cancel e r params s)) = store_cash s
   \<and> store_value (snd (cancel e r params s)) = store_value s
   \<and> store_cash (snd (submit e ow d exectype side amount prc kwargs s)) = store_cash s
   \<and> store_value (snd (submit e ow d exectype side amount prc kwargs s)) = store_value s
   \<and> store_cash (snd (close e ow d sz all kwargs s)) = store_cash s
   \<and> store_value (snd (close e ow d sz all kwargs s)) = store_value s
   \<and> (distinct (open_orders s) \<longrightarrow>
        (store_cash (snd (broker_next e s)) = store_cash s
           \<and> store_value (snd (broker_next e s)) = store_value s)
        \<or> (\<exists>q \<in> set (open_orders s). status (heap (snd (broker_next e s)) q) = Completed))"
proof -
  have n: "distinct (open_orders s) \<longrightarrow>
        (store_cash (snd (broker_next e s)) = store_cash s
           \<and> store_value (snd (broker_next e s)) = store_value s)
        \<or> (\<exists>q \<in> set (open_orders s). status (heap (snd (broker_next e s)) q) = Completed)"
  proof
    assume d: "distinct (open_orders s)"
    have "next_loop e (open_orders s) s = (fst (broker_next e s), snd (broker_next e s))"
      by (simp add: broker_next_def)
    from next_loop_store [OF this d d]
    show "(store_cash (snd (broker_next e s)) = store_cash s
           \<and> store_value (snd (broker_next e s)) = store_value s)
        \<or> (\<exists>q \<in> set (open_orders s). status (heap (snd (broker_next e s)) q) = Completed)" .
  qed
  have g: "getcash s = (store_cash s, s\<lparr>broker_cash := store_cash s\<rparr>)
   \<and> getvalue s = (store_value s, s\<lparr>broker_value := store_value s\<rparr>)
   \<and> calls (snd (getcash s)) = calls s \<and> calls (snd (getvalue s)) = calls s
   \<and> store_cash (snd (getcash s)) = store_cash s \<and> store_value (snd (getcash s)) = store_value s
   \<and> store_cash (snd (getvalue s)) = store_cash s \<and> store_value (snd (getvalue s)) = store_value s"
    by (simp add: getcash_def getvalue_def)
  from g n cancel_store [of e r params s] submit_store [of e ow d exectype side amount prc kwargs s]
    close_store [of e ow d sz all kwargs s]
  show ?thesis by blast
qed

lemma pass_all_open:
  "status (heap (snd (broker_next store_cancels (broker_ex default_mappings [0, 1]))) 0) = Created"
  "status (heap (snd (broker_next store_cancels (broker_ex default_mappings [0, 1]))) 1) = Created"
  by (simp_all add: store_cancels_def next_eval_defs)

theorem getcash_getvalue_cached_witness:
  "getcash (broker_ex default_mappings [0, 1]) =
     (JNum 500, (broker_ex default_mappings [0, 1])\<lparr>broker_cash := JNum 500\<rparr>)
   \<and> getvalue (broker_ex default_mappings [0, 1]) =
     (JNum 600, (broker_ex default_mappings [0, 1])\<lparr>broker_value := JNum 600\<rparr>)
   \<and> calls (snd (getcash (broker_ex default_mappings [0, 1]))) = []
   \<and> store_cash (snd (broker_next store_cancels (broker_ex default_mappings [0, 1]))) = JNum 500
   \<and> store_value (snd (broker_next store_cancels (broker_ex default_mappings [0, 1]))) = JNum 600"
proof -
  have d: "distinct (open_orders (broker_ex default_mappings [0, 1]))"
    by (simp add: broker_ex_simps)
  have none: "\<not> (\<exists>q \<in> set (open_orders (broker_ex default_mappings [0, 1])).
      status (heap (snd (broker_next store_cancels (broker_ex default_mappings [0, 1]))) q)
        = Completed)"
    using pass_all_open by (simp add: broker_ex_simps)
  from getcash_getvalue_cached [where s = "broker_ex default_mappings [0, 1]"
      and e = store_cancels] d none
  show ?thesis by (simp add: broker_ex_simps)
qed

subsection \<open>Closing a position\<close>

lemma position_amounts_none:
  "\<forall>q \<in> set ps. \<exists>sy. py_getitem q ''symbol'' = Inr sy \<and> sy \<noteq> JStr symbol
     \<Longrightarrow> position_amounts ps symbol = Inr []"
  by (induction ps) auto

lemma submit_calls:
  assumes "amount \<noteq> JNum 0" and "prc \<noteq> JNum 0" and "py_hashable exectype"
    and "fmlookup params ''params'' = None"
  shows "\<exists>ot ps2 rest. calls (snd (submit e ow d exectype side amount prc params s))
           = calls s @ [CreateOrder (p_dataname d) ot side amount prc ps2] @ rest"
proof -
  obtain res s' where sub: "submit e ow d exectype side amount prc params s = (res, s')"
    by (cases "submit e ow d exectype side amount prc params s")
  have "\<exists>ot ps2 rest. calls s' = calls s @ [CreateOrder (p_dataname d) ot side amount prc ps2] @ rest"
    using sub assms
    by (auto simp: submit_def Let_def notify_def split: sum.splits)
  with sub show ?thesis by simp
qed

text \<open>
  Claim C7. \<^verbatim>\<open>close\<close> is called with \<^verbatim>\<open>all=False\<close>, \<^verbatim>\<open>size=None\<close> and no other keyword
  argument, and the store answers with the list \<open>ps\<close> of positions. When the amount of the
  first position of the instrument is a negative number \<open>p\<close>, \<^verbatim>\<open>close\<close> is a \<^verbatim>\<open>buy\<close> of
  size \<open>\<bar>p\<bar>\<close>, which makes the store's \<^verbatim>\<open>create_order\<close> call with side \<^verbatim>\<open>buy\<close> and
  that amount; when it is positive, a \<^verbatim>\<open>sell\<close> of size \<open>\<bar>p\<bar>\<close>. When every position is of
  another instrument, \<^verbatim>\<open>close\<close> returns \<^verbatim>\<open>None\<close> (whatever the size and the other keyword
  arguments), having made no call but the one for the positions.
\<close>

theorem close_offsets_position:
  assumes "store_get_binance_positions e (calls s) = Inr ps"
    and "symbol = filter (\<lambda>c. c \<noteq> CHR ''/'') (p_dataname d)"
  shows "(position_amounts ps symbol = Inr (JNum p # others) \<and> p < 0 \<longrightarrow>
            close e ow d JNull False fmempty s =
              buy e ow d (JNum \<bar>p\<bar>) JNull JNull fmempty
                (s\<lparr>calls := calls s @ [GetBinancePositions]\<rparr>)
          \<and> (\<exists>ot ps2 rest. calls (snd (close e ow d JNull False fmempty s)) =
                calls s @ [GetBinancePositions,
                           CreateOrder (p_dataname d) ot ''buy'' (JNum \<bar>p\<bar>) JNull ps2] @ rest))
       \<and> (position_amounts ps symbol = Inr (JNum p # others) \<and> 0 < p \<longrightarrow>
            close e ow d JNull False fmempty s =
              sell e ow d (JNum \<bar>p\<bar>) JNull JNull fmempty
                (s\<lparr>calls := calls s @ [GetBinancePositions]\<rparr>)
          \<and> (\<exists>ot ps2 rest. calls (snd (close e ow d JNull False fmempty s)) =
                calls s @ [GetBinancePositions,
                           CreateOrder (p_dataname d) ot ''sell'' (JNum \<bar>p\<bar>) JNull ps2] @ rest))
       \<and> ((\<forall>q \<in> set ps. \<exists>sy. py_getitem q ''symbol'' = Inr sy \<and> sy \<noteq> JStr symbol) \<longrightarrow>
            close e ow d sz False kwargs s =
              (Inr None, s\<lparr>calls := calls s @ [GetBinancePositions]\<rparr>))"
proof -
  define s1 where "s1 = s\<lparr>calls := calls s @ [GetBinancePositions]\<rparr>"
  have kw: "\<not> kw_clash fmempty" "kw_get fmempty ''price'' = JNull"
    "kw_get fmempty ''exectype'' = JNull" "kw_rest fmempty = fmempty"
    by (simp_all add: kw_clash_def kw_get_def kw_rest_def)
  have short: "position_amounts ps symbol = Inr (JNum p # others) \<and> p < 0 \<longrightarrow>
            close e ow d JNull False fmempty s = buy e ow d (JNum \<bar>p\<bar>) JNull JNull fmempty s1
          \<and> (\<exists>ot ps2 rest. calls (snd (close e ow d JNull False fmempty s)) =
                calls s @ [GetBinancePositions,
                           CreateOrder (p_dataname d) ot ''buy'' (JNum \<bar>p\<bar>) JNull ps2] @ rest)"
  proof
    assume h: "position_amounts ps symbol = Inr (JNum p # others) \<and> p < 0"
    then have eq: "close e ow d JNull False fmempty s
        = buy e ow d (JNum \<bar>p\<bar>) JNull JNull fmempty s1"
      using assms kw by (simp add: close_def Let_def py_abs_def s1_def)
    from h have nz: "JNum \<bar>p\<bar> \<noteq> JNum 0" by simp
    from submit_calls [of "JNum \<bar>p\<bar>" JNull JNull fmempty e ow d "''buy''" s1] nz
    obtain ot ps2 rest where
      "calls (snd (submit e ow d JNull ''buy'' (JNum \<bar>p\<bar>) JNull fmempty s1))
         = calls s1 @ [CreateOrder (p_dataname d) ot ''buy'' (JNum \<bar>p\<bar>) JNull ps2] @ rest"
      by (auto simp: py_hashable_def)
    then have "calls (snd (close e ow d JNull False fmempty s)) =
        calls s @ [GetBinancePositions,
                   CreateOrder (p_dataname d) ot ''buy'' (JNum \<bar>p\<bar>) JNull ps2] @ rest"
      by (simp add: eq buy_def s1_def)
    with eq show "close e ow d JNull False fmempty s
          = buy e ow d (JNum \<bar>p\<bar>) JNull JNull fmempty s1
        \<and> (\<exists>ot ps2 rest. calls (snd (close e ow d JNull False fmempty s)) =
                calls s @ [GetBinancePositions,
                           CreateOrder (p_dataname d) ot ''buy'' (JNum \<bar>p\<bar>) JNull ps2] @ rest)"
      by blast
  qed
  have long: "position_amounts ps symbol = Inr (JNum p # others) \<and> 0 < p \<longrightarrow>
            close e ow d JNull False fmempty s = sell e ow d (JNum \<bar>p\<bar>) JNull JNull fmempty s1
          \<and> (\<exists>ot ps2 rest. calls (snd (close e ow d JNull False fmempty s)) =
                calls s @ [GetBinancePositions,
                           CreateOrder (p_dataname d) ot ''sell'' (JNum \<bar>p\<bar>) JNull ps2] @ rest)"
  proof
    assume h: "position_amounts ps symbol = Inr (JNum p # others) \<and> 0 < p"
    then have eq: "close e ow d JNull False fmempty s
        = sell e ow d (JNum \<bar>p\<bar>) JNull JNull fmempty s1"
      using assms kw by (simp add: close_def Let_def py_abs_def s1_def)
    from h have nz: "JNum \<bar>p\<bar> \<noteq> JNum 0" by simp
    from submit_calls [of "JNum \<bar>p\<bar>" JNull JNull fmempty e ow d "''sell''" s1] nz
    obtain ot ps2 rest where
      "calls (snd (submit e ow d JNull ''sell'' (JNum \<bar>p\<bar>) JNull fmempty s1))
         = calls s1 @ [CreateOrder (p_dataname d) ot ''sell'' (JNum \<bar>p\<bar>) JNull ps2] @ rest"
      by (auto simp: py_hashable_def)
    then have "calls (snd (close e ow d JNull False fmempty s)) =
        calls s @ [GetBinancePositions,
                   CreateOrder (p_dataname d) ot ''sell'' (JNum \<bar>p\<bar>) JNull ps2] @ rest"
      by (simp add: eq sell_def s1_def)
    with eq show "close e ow d JNull False fmempty s
          = sell e ow d (JNum \<bar>p\<bar>) JNull JNull fmempty s1
        \<and> (\<exists>ot ps2 rest. calls (snd (close e ow d JNull False fmempty s)) =
                calls s @ [GetBinancePositions,
                           CreateOrder (p_dataname d) ot ''sell'' (JNum \<bar>p\<bar>) JNull ps2] @ rest)"
      by blast
  qed
  have none: "(\<forall>q \<in> set ps. \<exists>sy. py_getitem q ''symbol'' = Inr sy \<and> sy \<noteq> JStr symbol) \<longrightarrow>
            close e ow d sz False kwargs s = (Inr None, s1)"
  proof
    assume "\<forall>q \<in> set ps. \<exists>sy. py_getitem q ''symbol'' = Inr sy \<and> sy \<noteq> JStr symbol"
    from position_amounts_none [OF this] assms
    show "close e ow d sz False kwargs s = (Inr None, s1)"
      by (simp add: close_def Let_def s1_def)
  qed
  from short long none show ?thesis unfolding s1_def by blast
qed


lemma store_positions_simps:
  "store_get_binance_positions store_positions h =
     Inr [JDict (fmap_of_list [(''symbol'', JStr ''ETHUSD''), (''positionAmt'', JNum (- 2))]),
          JDict (fmap_of_list [(''symbol'', JStr ''BTCUSD''), (''positionAmt'', JNum 3)])]"
  by (simp add: store_positions_def store_ex_def)

theorem close_offsets_position_witness:
  "(\<exists>ot ps2 rest.
      calls (snd (close store_positions ''strategy'' feed_eth JNull False fmempty
                    (broker_ex default_mappings [0, 1]))) =
        [GetBinancePositions, CreateOrder ''ETH/USD'' ot ''buy'' (JNum 2) JNull ps2] @ rest)
   \<and> (\<exists>ot ps2 rest.
      calls (snd (close store_positions ''strategy'' feed_btc JNull False fmempty
                    (broker_ex default_mappings [0, 1]))) =
        [GetBinancePositions, CreateOrder ''BTC/USD'' ot ''sell'' (JNum 3) JNull ps2] @ rest)
   \<and> close store_positions ''strategy'' feed_xrp JNull False fmempty
         (broker_ex default_mappings [0, 1]) =
       (Inr None, (broker_ex default_mappings [0, 1])\<lparr>calls := [GetBinancePositions]\<rparr>)"
proof -
  let ?ps = "[JDict (fmap_of_list [(''symbol'', JStr ''ETHUSD''), (''positionAmt'', JNum (- 2))]),
          JDict (fmap_of_list [(''symbol'', JStr ''BTCUSD''), (''positionAmt'', JNum 3)])]"
  have ps: "store_get_binance_positions store_positions
      (calls (broker_ex default_mappings [0, 1])) = Inr ?ps"
    by (rule store_positions_simps)
  have eth: "''ETHUSD'' = filter (\<lambda>c. c \<noteq> CHR ''/'') (p_dataname feed_eth)"
    and btc: "''BTCUSD'' = filter (\<lambda>c. c \<noteq> CHR ''/'') (p_dataname feed_btc)"
    and xrp: "''XRPUSD'' = filter (\<lambda>c. c \<noteq> CHR ''/'') (p_dataname feed_xrp)"
    by (simp_all add: feed_eth_def feed_btc_def feed_xrp_def)
  have short: "position_amounts ?ps ''ETHUSD'' = Inr (JNum (- 2) # []) \<and> (- 2 :: real) < 0"
    by (simp add: py_getitem_def)
  have long: "position_amounts ?ps ''BTCUSD'' = Inr (JNum 3 # []) \<and> (0 :: real) < 3"
    by (simp add: py_getitem_def)
  have none: "\<forall>q \<in> set ?ps. \<exists>sy. py_getitem q ''symbol'' = Inr sy \<and> sy \<noteq> JStr ''XRPUSD''"
    by (simp add: py_getitem_def)
  note c_eth = close_offsets_position [OF ps eth, where p = "- 2" and others = "[]"
      and ow = "''strategy''" and sz = JNull and kwargs = fmempty]
  note c_btc = close_offsets_position [OF ps btc, where p = 3 and others = "[]"
      and ow = "''strategy''" and sz = JNull and kwargs = fmempty]
  note c_xrp = close_offsets_position [OF ps xrp, where p = 0 and others = "[]"
      and ow = "''strategy''" and sz = JNull and kwargs = fmempty]
  from c_eth short
  have "\<exists>ot ps2 rest.
      calls (snd (close store_positions ''strategy'' feed_eth JNull False fmempty
                    (broker_ex default_mappings [0, 1]))) =
        calls (broker_ex default_mappings [0, 1])
          @ [GetBinancePositions,
             CreateOrder (p_dataname feed_eth) ot ''buy'' (JNum \<bar>- 2\<bar>) JNull ps2] @ rest"
    by blast
  then have 1: "\<exists>ot ps2 rest.
      calls (snd (close store_positions ''strategy'' feed_eth JNull False fmempty
                    (broker_ex default_mappings [0, 1]))) =
        [GetBinancePositions, CreateOrder ''ETH/USD'' ot ''buy'' (JNum 2) JNull ps2] @ rest"
    by (simp add: broker_ex_simps feed_eth_def)
  from c_btc long
  have "\<exists>ot ps2 rest.
      calls (snd (close store_positions ''strategy'' feed_btc JNull False fmempty
                    (broker_ex default_mappings [0, 1]))) =
        calls (broker_ex default_mappings [0, 1])
          @ [GetBinancePositions,
             CreateOrder (p_dataname feed_btc) ot ''sell'' (JNum \<bar>3\<bar>) JNull ps2] @ rest"
    by blast
  then have 2: "\<exists>ot ps2 rest.
      calls (snd (close store_positions ''strategy'' feed_btc JNull False fmempty
                    (broker_ex default_mappings [0, 1]))) =
        [GetBinancePositions, CreateOrder ''BTC/USD'' ot ''sell'' (JNum 3) JNull ps2] @ rest"
    by (simp add: broker_ex_simps feed_btc_def)
  from c_xrp none
  have "close store_positions ''strategy'' feed_xrp JNull False fmempty
         (broker_ex default_mappings [0, 1]) =
       (Inr None, (broker_ex default_mappings [0, 1])
          \<lparr>calls := calls (broker_ex default_mappings [0, 1]) @ [GetBinancePositions]\<rparr>)"
    by blast
  then have 3: "close store_positions ''strategy'' feed_xrp JNull False fmempty
         (broker_ex default_mappings [0, 1]) =
       (Inr None, (broker_ex default_mappings [0, 1])\<lparr>calls := [GetBinancePositions]\<rparr>)"
    by (simp add: broker_ex_simps)
  from 1 2 3 show ?thesis by blast
qed

end
